theory Spec2Isabelle
  imports Main
begin

section \<open>argparse.hpp: a shallow embedding\<close>

text \<open>
  The header \<^verbatim>\<open>src/argparse.hpp\<close> defines one class, \<^verbatim>\<open>ArgumentParser\<close>, with two private
  helper classes (\<^verbatim>\<open>Any\<close>, \<^verbatim>\<open>Argument\<close>). Member functions become functions on an explicit
  parser state. A member function ends in one of three ways: it returns, it throws a C++
  exception, or it runs into undefined behaviour (a null pointer is dereferenced, a vector
  is indexed out of range). The three are kept apart: an exception can be caught by the
  caller, undefined behaviour cannot.
\<close>

subsection \<open>Outcomes of a call\<close>

text \<open>
  The exception classes the header throws. The text given to the exception's constructor
  is not modelled: an exception is identified by its class.
\<close>

datatype exn = invalid_argument | out_of_range | bad_cast

datatype 'a outcome = Returns 'a | Throws exn | Undefined_behaviour

fun bind_outcome :: "'a outcome \<Rightarrow> ('a \<Rightarrow> 'b outcome) \<Rightarrow> 'b outcome" where
  "bind_outcome (Returns x) f = f x"
| "bind_outcome (Throws e) f = Throws e"
| "bind_outcome Undefined_behaviour f = Undefined_behaviour"

subsection \<open>upper (lines 20-24)\<close>

text \<open>
  \<^verbatim>\<open>upper\<close> applies \<^verbatim>\<open>::toupper\<close> to every character. In the "C" locale \<^verbatim>\<open>toupper\<close> maps the
  26 lower-case letters to their upper-case forms and leaves every other character as it
  is.
\<close>

definition toupper :: "char \<Rightarrow> char" where
  "toupper c =
     (case map_of (zip ''abcdefghijklmnopqrstuvwxyz'' ''ABCDEFGHIJKLMNOPQRSTUVWXYZ'') c of
        None \<Rightarrow> c
      | Some u \<Rightarrow> u)"

definition upper :: "string \<Rightarrow> string" where
  "upper in_str = map toupper in_str"

subsection \<open>Any: the type-erased value (lines 53-108)\<close>

text \<open>
  \<^verbatim>\<open>Any\<close> owns a pointer \<^verbatim>\<open>content\<close> to a \<^verbatim>\<open>PlaceHolder\<close>, null after default construction.
  The header instantiates \<^verbatim>\<open>Holder<ValueType>\<close> at two types only, \<^verbatim>\<open>std::string\<close>
  (lines 157, 311) and \<^verbatim>\<open>std::vector<std::string>\<close> (lines 158, 313); \<^verbatim>\<open>type_id\<close> names
  the two \<^verbatim>\<open>typeid\<close>s and \<^verbatim>\<open>PlaceHolder\<close> the two holders with their \<^verbatim>\<open>held_\<close> value.
\<close>

datatype type_id = typeid_string | typeid_vector_string

datatype PlaceHolder = Holder_string string | Holder_vector "string list"

fun type_info :: "PlaceHolder \<Rightarrow> type_id" where
  "type_info (Holder_string v) = typeid_string"
| "type_info (Holder_vector vs) = typeid_vector_string"

datatype Any = Any (content: "PlaceHolder option")

text \<open>Line 56: \<^verbatim>\<open>Any() : content(0) {}\<close>.\<close>

definition Any_default :: Any where
  "Any_default = Any None"

text \<open>Line 62: \<^verbatim>\<open>Any(const ValueType& other) : content(new Holder<ValueType>(other)) {}\<close>.\<close>

definition Any_of :: "PlaceHolder \<Rightarrow> Any" where
  "Any_of h = Any (Some h)"

text \<open>
  Lines 77-80, \<^verbatim>\<open>toPtr<ValueType>\<close>: \<^verbatim>\<open>content->type_info()\<close> is a virtual call through
  \<^verbatim>\<open>content\<close> with no test for null. On a null \<^verbatim>\<open>content\<close> that is undefined behaviour; no
  exception is thrown. Otherwise the result is the address of \<^verbatim>\<open>held_\<close> when the
  \<^verbatim>\<open>typeid\<close>s agree and the null pointer when they do not.
\<close>

definition toPtr :: "type_id \<Rightarrow> Any \<Rightarrow> PlaceHolder option outcome" where
  "toPtr T a =
     (case content a of
        None \<Rightarrow> Undefined_behaviour
      | Some h \<Rightarrow> Returns (if type_info h = T then Some h else None))"

text \<open>Lines 81-85, \<^verbatim>\<open>castTo<ValueType>\<close>: \<^verbatim>\<open>result ? *result : throw std::bad_cast()\<close>.\<close>

definition castTo :: "type_id \<Rightarrow> Any \<Rightarrow> PlaceHolder outcome" where
  "castTo T a =
     bind_outcome (toPtr T a)
       (\<lambda>result. case result of Some h \<Rightarrow> Returns h | None \<Rightarrow> Throws bad_cast)"

subsection \<open>Argument: one declared argument (lines 113-152)\<close>

text \<open>
  The anonymous union of \<^verbatim>\<open>size_t fixed_nargs\<close> and \<^verbatim>\<open>char variable_nargs\<close> together with the
  flag \<^verbatim>\<open>fixed\<close> that says which member is live is a tagged union: the constructor sets
  \<^verbatim>\<open>fixed\<close> to true exactly when it writes \<^verbatim>\<open>fixed_nargs\<close>, and every reader tests \<^verbatim>\<open>fixed\<close>
  before it reads a member.
\<close>

datatype nargs_union = fixed_nargs nat | variable_nargs char

record Argument =
  short_name :: string
  name :: string
  optional :: bool
  nargs_u :: nargs_union

fun is_fixed :: "nargs_union \<Rightarrow> bool" where
  "is_fixed (fixed_nargs n) = True"
| "is_fixed (variable_nargs c) = False"

definition fixed :: "Argument \<Rightarrow> bool" where
  "fixed arg = is_fixed (nargs_u arg)"

text \<open>
  Line 120, \<^verbatim>\<open>fixed_nargs = nargs\<close>, converts a \<^verbatim>\<open>char\<close> to \<^verbatim>\<open>size_t\<close>. With a signed 8-bit
  \<^verbatim>\<open>char\<close> and a 64-bit \<^verbatim>\<open>size_t\<close> the codes 0 to 127 keep their value and the codes from 128
  on, being negative, wrap around modulo \<open>2 ^ 64\<close>.
\<close>

definition size_t_of_char :: "char \<Rightarrow> nat" where
  "size_t_of_char c =
     (if (of_char c :: nat) < 128 then of_char c else 2 ^ 64 - 256 + of_char c)"

text \<open>The constructor, lines 114-123.\<close>

definition Argument_ctor :: "string \<Rightarrow> string \<Rightarrow> bool \<Rightarrow> char \<Rightarrow> Argument" where
  "Argument_ctor sn n opt nargs =
     \<lparr>short_name = sn, name = n, optional = opt,
      nargs_u = (if nargs = CHR ''+'' \<or> nargs = CHR ''*''
                 then variable_nargs nargs
                 else fixed_nargs (size_t_of_char nargs))\<rparr>"

text \<open>
  \<^verbatim>\<open>toString\<close>, lines 132-151. The stream \<^verbatim>\<open>s\<close> is the string built so far; each \<^verbatim>\<open><<\<close>
  appends.
\<close>

definition toString :: "Argument \<Rightarrow> string" where
  "toString arg =
     (let uname = (if name arg = [] then upper (short_name arg) else upper (name arg)) in
      (if optional arg then ''['' else []) @
      (if name arg \<noteq> [] then ''--'' @ name arg else ''-'' @ short_name arg) @
      (case nargs_u arg of
         fixed_nargs k \<Rightarrow>
           (let N = min 3 k in
            concat (replicate N ('' '' @ uname)) @ (if N < k then '' ...'' else []))
       | variable_nargs v \<Rightarrow>
           '' '' @ (if v = CHR ''*'' then ''['' else []) @ uname @ '' '' @
           (if v = CHR ''+'' then ''['' else []) @ uname @ ''...]'') @
      (if optional arg then '']'' else []))"

subsection \<open>The parser state (lines 166-171)\<close>

text \<open>
  The members \<^verbatim>\<open>index_\<close>, \<^verbatim>\<open>ignore_first_\<close>, \<^verbatim>\<open>app_name_\<close>, \<^verbatim>\<open>final_name_\<close>, \<^verbatim>\<open>arguments_\<close> and
  \<^verbatim>\<open>variables_\<close>, written without the trailing underscore. \<^verbatim>\<open>IndexMap\<close> is a map from
  strings to \<^verbatim>\<open>size_t\<close>.
\<close>

record ArgumentParser =
  index :: "string \<rightharpoonup> nat"
  ignore_first :: bool
  app_name :: string
  final_name :: string
  arguments :: "Argument list"
  variables :: "Any list"

text \<open>
  The class has no user-written constructor. The implicit one makes the map, the two
  strings and the two vectors empty and leaves \<^verbatim>\<open>ignore_first_\<close> without a value, so the
  flag is a parameter here.
\<close>

definition ArgumentParser_new :: "bool \<Rightarrow> ArgumentParser" where
  "ArgumentParser_new ig =
     \<lparr>index = Map.empty, ignore_first = ig, app_name = [], final_name = [],
      arguments = [], variables = []\<rparr>"

text \<open>The two setters, lines 176 and 195.\<close>

definition appName :: "ArgumentParser \<Rightarrow> string \<Rightarrow> ArgumentParser" where
  "appName p nm = p\<lparr>app_name := nm\<rparr>"

definition ignoreFirstArgument :: "ArgumentParser \<Rightarrow> bool \<Rightarrow> ArgumentParser" where
  "ignoreFirstArgument p ig = p\<lparr>ignore_first := ig\<rparr>"

subsection \<open>Declaration (lines 154-218)\<close>

text \<open>\<^verbatim>\<open>insertArgument\<close>, lines 154-161. It has no failing path.\<close>

definition insertArgument :: "ArgumentParser \<Rightarrow> Argument \<Rightarrow> ArgumentParser" where
  "insertArgument p arg =
     (let N = length (arguments p);
          p1 = p\<lparr>arguments := arguments p @ [arg]\<rparr>;
          p2 = (if fixed arg
                then p1\<lparr>variables := variables p1 @ [Any_of (Holder_string [])]\<rparr>
                else p1);
          p3 = (if \<not> fixed arg
                then p2\<lparr>variables := variables p2 @ [Any_of (Holder_vector [])]\<rparr>
                else p2);
          p4 = (if short_name arg \<noteq> []
                then p3\<lparr>index := (index p3)(short_name arg \<mapsto> N)\<rparr>
                else p3)
      in (if name arg \<noteq> []
          then p4\<lparr>index := (index p4)(name arg \<mapsto> N)\<rparr>
          else p4))"

text \<open>\<^verbatim>\<open>sanitize\<close>, lines 197-218.\<close>

definition sanitize :: "string \<Rightarrow> string outcome" where
  "sanitize nm =
     (if length nm = 2 then
        (if nm ! 0 = CHR ''-'' then Returns (drop 1 nm) else Throws invalid_argument)
      else if length nm > 2 then
        (if nm ! 0 = CHR ''-'' \<and> nm ! 1 = CHR ''-'' then Returns (drop 2 nm)
         else Throws invalid_argument)
      else Throws invalid_argument)"

text \<open>
  \<^verbatim>\<open>addArgument(name, nargs, optional)\<close>, lines 177-185. The defaults \<^verbatim>\<open>nargs=0\<close> and
  \<^verbatim>\<open>optional=true\<close> are the caller's to pass here.
\<close>

definition addArgument ::
  "ArgumentParser \<Rightarrow> string \<Rightarrow> char \<Rightarrow> bool \<Rightarrow> ArgumentParser outcome" where
  "addArgument p nm nargs opt =
     (if length nm > 2
      then bind_outcome (sanitize nm)
             (\<lambda>n. Returns (insertArgument p (Argument_ctor [] n opt nargs)))
      else bind_outcome (sanitize nm)
             (\<lambda>sn. Returns (insertArgument p (Argument_ctor sn [] opt nargs))))"

text \<open>
  \<^verbatim>\<open>addArgument(short_name, name, nargs, optional)\<close>, lines 186-189. C++ leaves the order of
  the two \<^verbatim>\<open>sanitize\<close> calls open; both throw the same exception class, so the outcome
  does not depend on it.
\<close>

definition addArgument2 ::
  "ArgumentParser \<Rightarrow> string \<Rightarrow> string \<Rightarrow> char \<Rightarrow> bool \<Rightarrow> ArgumentParser outcome" where
  "addArgument2 p snm nm nargs opt =
     bind_outcome (sanitize snm)
       (\<lambda>sn. bind_outcome (sanitize nm)
          (\<lambda>n. Returns (insertArgument p (Argument_ctor sn n opt nargs))))"

text \<open>
  \<^verbatim>\<open>addFinalArgument\<close>, lines 190-194: the name is stored as given, without \<^verbatim>\<open>sanitize\<close>, and
  no statement of the body throws.
\<close>

definition addFinalArgument ::
  "ArgumentParser \<Rightarrow> string \<Rightarrow> char \<Rightarrow> bool \<Rightarrow> ArgumentParser outcome" where
  "addFinalArgument p nm nargs opt =
     Returns (insertArgument (p\<lparr>final_name := nm\<rparr>) (Argument_ctor [] nm opt nargs))"

subsection \<open>parse (lines 228-231) and retrieve (lines 236-241)\<close>

definition parse :: "ArgumentParser \<Rightarrow> string list \<Rightarrow> ArgumentParser" where
  "parse p argv =
     (if app_name p = [] \<and> \<not> ignore_first p \<and> argv \<noteq> []
      then p\<lparr>app_name := argv ! 0\<rparr>
      else p)"

text \<open>
  \<^verbatim>\<open>retrieve<T>\<close>: \<^verbatim>\<open>variables_[N]\<close> is an unchecked vector access, undefined behaviour when
  \<^verbatim>\<open>N\<close> is not below the vector's size.
\<close>

definition retrieve :: "type_id \<Rightarrow> ArgumentParser \<Rightarrow> string \<Rightarrow> PlaceHolder outcome" where
  "retrieve T p nm =
     (case index p nm of
        None \<Rightarrow> Throws out_of_range
      | Some N \<Rightarrow>
          (if N < length (variables p) then castTo T (variables p ! N)
           else Undefined_behaviour))"

subsection \<open>usage (lines 246-293)\<close>

text \<open>
  The string stream \<^verbatim>\<open>help\<close> (here \<open>help_stream\<close>), the counter \<^verbatim>\<open>linelength\<close> and, since the second loop
  prints to it (line 274), what has been written to \<^verbatim>\<open>std::cout\<close>: the numbers printed,
  one per line.
\<close>

record usage_state =
  help_stream :: string
  linelength :: nat
  cout :: "nat list"

definition newline :: char where
  "newline = CHR 0x0A"

text \<open>Lines 259-265 and again 275-281: the wrap test, then \<^verbatim>\<open>help << argstr << " "\<close>.\<close>

definition wrap_append :: "nat \<Rightarrow> string \<Rightarrow> usage_state \<Rightarrow> usage_state" where
  "wrap_append indent argstr st =
     (let st1 = (if length argstr + linelength st > 80
                 then st\<lparr>help_stream := help_stream st @ [newline] @ replicate indent CHR '' '',
                         linelength := 0\<rparr>
                 else st\<lparr>linelength := linelength st + length argstr\<rparr>)
      in st1\<lparr>help_stream := help_stream st1 @ argstr @ '' ''\<rparr>)"

text \<open>The first loop, lines 254-266, over \<^verbatim>\<open>arguments_\<close> from \<^verbatim>\<open>it\<close> on.\<close>

fun usage_required :: "string \<Rightarrow> nat \<Rightarrow> Argument list \<Rightarrow> usage_state \<Rightarrow> usage_state" where
  "usage_required fin indent [] st = st"
| "usage_required fin indent (arg # rest) st =
     (if optional arg then usage_required fin indent rest st
      else if name arg = fin then usage_required fin indent rest st
      else usage_required fin indent rest (wrap_append indent (toString arg) st))"

text \<open>The second loop, lines 269-282.\<close>

fun usage_optional :: "string \<Rightarrow> nat \<Rightarrow> Argument list \<Rightarrow> usage_state \<Rightarrow> usage_state" where
  "usage_optional fin indent [] st = st"
| "usage_optional fin indent (arg # rest) st =
     (if \<not> optional arg then usage_optional fin indent rest st
      else if name arg = fin then usage_optional fin indent rest st
      else usage_optional fin indent rest
             (wrap_append indent (toString arg)
                (st\<lparr>cout := cout st @ [length (help_stream st) mod 80]\<rparr>)))"

text \<open>
  \<^verbatim>\<open>usage\<close> returns the string; the model returns with it the numbers printed and the
  parser, because \<^verbatim>\<open>index_[final_name_]\<close> (line 286) is \<^verbatim>\<open>operator[]\<close> of the map, which
  inserts the key with the value 0 when it is absent. \<^verbatim>\<open>arguments_[...]\<close> is an unchecked
  vector access.
\<close>

definition usage :: "ArgumentParser \<Rightarrow> (string \<times> nat list \<times> ArgumentParser) outcome" where
  "usage p =
     (let help0 = ''Usage: '' @ app_name p @ '' '';
          indent = length help0;
          st1 = usage_required (final_name p) indent (arguments p)
                  \<lparr>help_stream = help0, linelength = 0, cout = []\<rparr>;
          st2 = usage_optional (final_name p) indent (arguments p) st1
      in (if final_name p \<noteq> [] then
            (let N = (case index p (final_name p) of Some i \<Rightarrow> i | None \<Rightarrow> 0);
                 p' = (case index p (final_name p) of
                         Some i \<Rightarrow> p
                       | None \<Rightarrow> p\<lparr>index := (index p)(final_name p \<mapsto> 0)\<rparr>)
             in (if N < length (arguments p') then
                   (let argstr = toString (arguments p' ! N);
                        h = (if length argstr + length (help_stream st2) mod 80 > 80
                             then help_stream st2 @ [newline] @ replicate indent CHR '' ''
                             else help_stream st2)
                    in Returns (h @ argstr, cout st2, p'))
                 else Undefined_behaviour))
          else Returns (help_stream st2, cout st2, p)))"

subsection \<open>clear (lines 295-299) and the parsers a caller can reach\<close>

text \<open>\<^verbatim>\<open>clear\<close> empties the index and the two vectors; the two names and the flag stay.\<close>

definition clear :: "ArgumentParser \<Rightarrow> ArgumentParser" where
  "clear p = p\<lparr>index := Map.empty, arguments := [], variables := []\<rparr>"

text \<open>
  The parsers a caller can have in hand: a freshly constructed one, and what any public
  member function that changes the parser leaves when it returns. A call that throws
  leaves the parser as it was (\<^verbatim>\<open>sanitize\<close> throws before anything is inserted);
  \<^verbatim>\<open>retrieve\<close>, \<^verbatim>\<open>count\<close>, \<^verbatim>\<open>exists\<close> and \<^verbatim>\<open>empty\<close> change nothing.
\<close>

inductive reachable :: "ArgumentParser \<Rightarrow> bool" where
  constructed: "reachable (ArgumentParser_new ig)"
| appName: "reachable p \<Longrightarrow> reachable (appName p nm)"
| ignoreFirstArgument: "reachable p \<Longrightarrow> reachable (ignoreFirstArgument p ig)"
| addArgument: "reachable p \<Longrightarrow> addArgument p nm nargs opt = Returns p' \<Longrightarrow> reachable p'"
| addArgument2:
    "reachable p \<Longrightarrow> addArgument2 p snm nm nargs opt = Returns p' \<Longrightarrow> reachable p'"
| addFinalArgument:
    "reachable p \<Longrightarrow> addFinalArgument p nm nargs opt = Returns p' \<Longrightarrow> reachable p'"
| parse: "reachable p \<Longrightarrow> reachable (parse p argv)"
| usage: "reachable p \<Longrightarrow> usage p = Returns (s, c, p') \<Longrightarrow> reachable p'"
| clear: "reachable p \<Longrightarrow> reachable (clear p)"

section \<open>Properties\<close>

subsection \<open>Facts about the declaration functions\<close>

lemma insertArgument_arguments:
  "arguments (insertArgument p arg) = arguments p @ [arg]"
  by (simp add: insertArgument_def Let_def)

lemma insertArgument_variables:
  "variables (insertArgument p arg) =
     variables p @ [Any_of (if fixed arg then Holder_string [] else Holder_vector [])]"
  by (simp add: insertArgument_def Let_def)

lemma insertArgument_index:
  "index (insertArgument p arg) k =
     (if k \<noteq> [] \<and> (k = name arg \<or> k = short_name arg)
      then Some (length (arguments p)) else index p k)"
  by (auto simp add: insertArgument_def Let_def)

lemma insertArgument_rest:
  "final_name (insertArgument p arg) = final_name p"
  "app_name (insertArgument p arg) = app_name p"
  "ignore_first (insertArgument p arg) = ignore_first p"
  by (simp_all add: insertArgument_def Let_def)

lemma parse_fields:
  "arguments (parse p argv) = arguments p"
  "variables (parse p argv) = variables p"
  "index (parse p argv) = index p"
  by (simp_all add: parse_def)

lemma sanitize_nonempty: "sanitize nm = Returns r \<Longrightarrow> r \<noteq> []"
  by (auto simp add: sanitize_def split: if_splits)

lemma Argument_ctor_fields:
  "short_name (Argument_ctor sn n opt nargs) = sn"
  "name (Argument_ctor sn n opt nargs) = n"
  "optional (Argument_ctor sn n opt nargs) = opt"
  by (simp_all add: Argument_ctor_def)

lemma Argument_ctor_one: "nargs_u (Argument_ctor sn n opt (CHR 0x01)) = fixed_nargs 1"
  by (simp add: Argument_ctor_def size_t_of_char_def)

lemma insertArgument_appended:
  "arguments (insertArgument p arg) ! length (arguments p) = arg"
  "length (variables p) = length (arguments p) \<Longrightarrow>
     variables (insertArgument p arg) ! length (arguments p) =
       Any_of (if fixed arg then Holder_string [] else Holder_vector [])"
  by (simp_all add: insertArgument_arguments insertArgument_variables nth_append)

lemma insertArgument_declares:
  assumes "short_name arg = [] \<or> short_name arg = n" and "name arg = [] \<or> name arg = n"
    and "short_name arg = n \<or> name arg = n" and "n \<noteq> []"
  shows "arguments (insertArgument p arg) = arguments p @ [arg] \<and>
         variables (insertArgument p arg) =
           variables p @ [Any_of (if fixed arg then Holder_string [] else Holder_vector [])] \<and>
         index (insertArgument p arg) n = Some (length (arguments p)) \<and>
         (\<forall>k. k \<noteq> n \<longrightarrow> index (insertArgument p arg) k = index p k) \<and>
         arguments (insertArgument p arg) ! length (arguments p) = arg \<and>
         (length (variables p) = length (arguments p) \<longrightarrow>
            variables (insertArgument p arg) ! length (arguments p) =
              Any_of (if fixed arg then Holder_string [] else Holder_vector []))"
proof (intro conjI allI impI)
  show "arguments (insertArgument p arg) = arguments p @ [arg]"
    by (rule insertArgument_arguments)
  show "variables (insertArgument p arg) =
          variables p @ [Any_of (if fixed arg then Holder_string [] else Holder_vector [])]"
    by (rule insertArgument_variables)
  show "index (insertArgument p arg) n = Some (length (arguments p))"
    using assms by (auto simp add: insertArgument_index)
  show "index (insertArgument p arg) k = index p k" if "k \<noteq> n" for k
    using assms that by (auto simp add: insertArgument_index)
  show "arguments (insertArgument p arg) ! length (arguments p) = arg"
    by (rule insertArgument_appended)
  show "variables (insertArgument p arg) ! length (arguments p) =
          Any_of (if fixed arg then Holder_string [] else Holder_vector [])"
    if "length (variables p) = length (arguments p)"
    using that by (rule insertArgument_appended)
qed

lemma sanitize_outcome:
  "(\<exists>r. sanitize nm = Returns r) \<or> sanitize nm = Throws invalid_argument"
  by (simp add: sanitize_def)

subsection \<open>Binding and retrieval\<close>

text \<open>
  C1. The claim: on a parser where the short name \<open>-x\<close> was declared with fixed count 1,
  binding \<open>[-x, v]\<close> and then retrieving \<open>x\<close> as a single string gives \<open>v\<close>. The code does not
  do that. \<^verbatim>\<open>parse\<close> never touches \<^verbatim>\<open>variables_\<close>, so on every parser whose descriptors and
  slots are aligned, for every character \<open>x\<close>, the declaration followed by \<^verbatim>\<open>parse\<close> and
  \<^verbatim>\<open>retrieve<std::string>\<close> returns the empty string that \<^verbatim>\<open>insertArgument\<close> stored.
\<close>

theorem parse_does_not_bind:
  assumes "length (arguments p) = length (variables p)"
  shows "bind_outcome (addArgument p [CHR ''-'', x] (CHR 0x01) opt)
           (\<lambda>p'. retrieve typeid_string (parse p' [[CHR ''-'', x], ''v'']) [x])
         = Returns (Holder_string [])"
proof -
  let ?arg = "Argument_ctor [x] [] opt (CHR 0x01)"
  let ?p' = "insertArgument p ?arg"
  have add: "addArgument p [CHR ''-'', x] (CHR 0x01) opt = Returns ?p'"
    by (simp add: addArgument_def sanitize_def)
  have idx: "index (parse ?p' [[CHR ''-'', x], ''v'']) [x] = Some (length (arguments p))"
    by (simp add: parse_fields insertArgument_index Argument_ctor_fields)
  have fx: "fixed ?arg"
    by (simp add: fixed_def Argument_ctor_one)
  have slot: "variables (parse ?p' [[CHR ''-'', x], ''v'']) ! length (arguments p)
                = Any_of (Holder_string [])"
    using assms fx by (simp add: parse_fields insertArgument_variables)
  have len: "length (arguments p) < length (variables (parse ?p' [[CHR ''-'', x], ''v'']))"
    using assms by (simp add: parse_fields insertArgument_variables)
  show ?thesis
    using idx slot len
    by (simp add: add retrieve_def castTo_def toPtr_def Any_of_def)
qed

theorem parse_does_not_bind_witness:
  "bind_outcome (addArgument (ArgumentParser_new False) ''-x'' (CHR 0x01) True)
     (\<lambda>p'. retrieve typeid_string (parse p' [''-x'', ''v'']) ''x'')
   = Returns (Holder_string [])"
  using parse_does_not_bind [of "ArgumentParser_new False" "CHR ''x''" True]
  by (simp add: ArgumentParser_new_def)

text \<open>
  C2. \<^verbatim>\<open>parse\<close> leaves the descriptor list, the value slots and the name index as they
  were (and the two other members too); the program name becomes the first token exactly
  when it was empty, the ignore-first flag is false and the token list is not empty, and
  stays as it was otherwise.
\<close>

theorem parse_frame:
  "arguments (parse p argv) = arguments p \<and>
   variables (parse p argv) = variables p \<and>
   index (parse p argv) = index p \<and>
   ignore_first (parse p argv) = ignore_first p \<and>
   final_name (parse p argv) = final_name p \<and>
   app_name (parse p argv) =
     (if app_name p = [] \<and> \<not> ignore_first p \<and> argv \<noteq> [] then hd argv else app_name p)"
  by (cases argv) (simp_all add: parse_def)

text \<open>
  C6. When the name is indexed and its slot holds a single string (as the slot of every
  fixed-count argument does), \<^verbatim>\<open>retrieve<std::vector<std::string>>\<close> throws
  \<^verbatim>\<open>std::bad_cast\<close>, the type-mismatch error, and returns nothing; \<^verbatim>\<open>retrieve\<close> of a name that
  is not in the index throws \<^verbatim>\<open>std::out_of_range\<close>, the unknown-argument error, whatever
  type is asked for.
\<close>

theorem retrieve_errors:
  "(index p nm = Some N \<and> N < length (variables p) \<and>
    variables p ! N = Any_of (Holder_string v)
      \<longrightarrow> retrieve typeid_vector_string p nm = Throws bad_cast) \<and>
   (index p nm' = None \<longrightarrow> retrieve T p nm' = Throws out_of_range)"
  by (simp add: retrieve_def castTo_def toPtr_def Any_of_def)

theorem retrieve_errors_witness:
  "retrieve typeid_vector_string
     \<lparr>index = [''x'' \<mapsto> 0], ignore_first = False, app_name = [], final_name = [],
      arguments = [Argument_ctor ''x'' [] True (CHR 0x01)],
      variables = [Any_of (Holder_string [])]\<rparr> ''x'' = Throws bad_cast \<and>
   retrieve typeid_string
     \<lparr>index = [''x'' \<mapsto> 0], ignore_first = False, app_name = [], final_name = [],
      arguments = [Argument_ctor ''x'' [] True (CHR 0x01)],
      variables = [Any_of (Holder_string [])]\<rparr> ''y'' = Throws out_of_range"
  using retrieve_errors [of "\<lparr>index = [''x'' \<mapsto> 0], ignore_first = False, app_name = [],
      final_name = [], arguments = [Argument_ctor ''x'' [] True (CHR 0x01)],
      variables = [Any_of (Holder_string [])]\<rparr>" "''x''" 0 "[]" "''y''" typeid_string]
  by simp

text \<open>
  What \<^verbatim>\<open>castTo\<close> does with each kind of value: on a default-constructed \<^verbatim>\<open>Any\<close> it
  dereferences the null \<^verbatim>\<open>content\<close> in \<^verbatim>\<open>toPtr\<close>, for either requested type; a value
  that holds something is extracted at its own type and refused, with \<^verbatim>\<open>std::bad_cast\<close>,
  at the other.
\<close>

lemma castTo_Any_default: "castTo T Any_default = Undefined_behaviour"
  by (simp add: castTo_def toPtr_def Any_default_def)

lemma castTo_Any_of:
  "castTo T (Any_of h) = (if type_info h = T then Returns h else Throws bad_cast)"
  by (simp add: castTo_def toPtr_def Any_of_def)

subsection \<open>Declaration\<close>

text \<open>
  C3, as amended. The header has no check for a name that is already declared, and no
  error for it. Declaring a descriptor whose well-formed name (long or short, single-name
  or two-name overload) is already in the index returns normally. The new descriptor is
  appended to the descriptors, which are otherwise as before, and a new slot (an empty
  string for a fixed count, an empty sequence otherwise) is appended to the slots, which
  are otherwise as before, so the slot count grows by one. The declared name now points
  to the position of the new descriptor, which on a parser whose descriptors and slots
  are aligned is the position of the new slot; every other name points where it did.
\<close>

theorem duplicate_declaration_returns:
  "(sanitize nm = Returns n \<and> index p n \<noteq> None \<longrightarrow>
      (\<exists>p' arg. addArgument p nm nargs opt = Returns p' \<and>
            arg = (if 2 < length nm then Argument_ctor [] n opt nargs
                   else Argument_ctor n [] opt nargs) \<and>
            arguments p' = arguments p @ [arg] \<and>
            variables p' =
              variables p @ [Any_of (if fixed arg then Holder_string [] else Holder_vector [])] \<and>
            index p' n = Some (length (arguments p)) \<and>
            (\<forall>k. k \<noteq> n \<longrightarrow> index p' k = index p k) \<and>
            arguments p' ! length (arguments p) = arg \<and>
            (length (variables p) = length (arguments p) \<longrightarrow>
               variables p' ! length (arguments p) =
                 Any_of (if fixed arg then Holder_string [] else Holder_vector [])))) \<and>
   (sanitize snm = Returns sn \<and> sanitize nm = Returns n \<and>
    (index p sn \<noteq> None \<or> index p n \<noteq> None) \<longrightarrow>
      (\<exists>p' arg. addArgument2 p snm nm nargs opt = Returns p' \<and>
            arg = Argument_ctor sn n opt nargs \<and>
            arguments p' = arguments p @ [arg] \<and>
            variables p' =
              variables p @ [Any_of (if fixed arg then Holder_string [] else Holder_vector [])] \<and>
            index p' sn = Some (length (arguments p)) \<and>
            index p' n = Some (length (arguments p)) \<and>
            (\<forall>k. k \<noteq> sn \<and> k \<noteq> n \<longrightarrow> index p' k = index p k) \<and>
            arguments p' ! length (arguments p) = arg \<and>
            (length (variables p) = length (arguments p) \<longrightarrow>
               variables p' ! length (arguments p) =
                 Any_of (if fixed arg then Holder_string [] else Holder_vector []))))"
proof (intro conjI impI)
  assume a: "sanitize nm = Returns n \<and> index p n \<noteq> None"
  then have ne: "n \<noteq> []" using sanitize_nonempty [of nm n] by simp
  let ?arg = "if 2 < length nm then Argument_ctor [] n opt nargs
              else Argument_ctor n [] opt nargs"
  have add: "addArgument p nm nargs opt = Returns (insertArgument p ?arg)"
    using a by (simp add: addArgument_def)
  have "short_name ?arg = [] \<or> short_name ?arg = n" "name ?arg = [] \<or> name ?arg = n"
    "short_name ?arg = n \<or> name ?arg = n"
    by (simp_all add: Argument_ctor_fields)
  from insertArgument_declares [OF this ne, of p] add
  show "\<exists>p' arg. addArgument p nm nargs opt = Returns p' \<and>
            arg = (if 2 < length nm then Argument_ctor [] n opt nargs
                   else Argument_ctor n [] opt nargs) \<and>
            arguments p' = arguments p @ [arg] \<and>
            variables p' =
              variables p @ [Any_of (if fixed arg then Holder_string [] else Holder_vector [])] \<and>
            index p' n = Some (length (arguments p)) \<and>
            (\<forall>k. k \<noteq> n \<longrightarrow> index p' k = index p k) \<and>
            arguments p' ! length (arguments p) = arg \<and>
            (length (variables p) = length (arguments p) \<longrightarrow>
               variables p' ! length (arguments p) =
                 Any_of (if fixed arg then Holder_string [] else Holder_vector []))"
    by (intro exI [of _ "insertArgument p ?arg"] exI [of _ ?arg]) blast
next
  assume a: "sanitize snm = Returns sn \<and> sanitize nm = Returns n \<and>
    (index p sn \<noteq> None \<or> index p n \<noteq> None)"
  then have ne: "n \<noteq> []" "sn \<noteq> []"
    using sanitize_nonempty [of nm n] sanitize_nonempty [of snm sn] by simp_all
  let ?arg = "Argument_ctor sn n opt nargs"
  let ?p' = "insertArgument p ?arg"
  have add: "addArgument2 p snm nm nargs opt = Returns ?p'"
    using a by (simp add: addArgument2_def)
  have i1: "index ?p' sn = Some (length (arguments p))"
    and i2: "index ?p' n = Some (length (arguments p))"
    and i3: "\<forall>k. k \<noteq> sn \<and> k \<noteq> n \<longrightarrow> index ?p' k = index p k"
    using ne by (simp_all add: insertArgument_index Argument_ctor_fields)
  have v: "length (variables p) = length (arguments p) \<longrightarrow>
             variables ?p' ! length (arguments p) =
               Any_of (if fixed ?arg then Holder_string [] else Holder_vector [])"
    using insertArgument_appended(2) [of p ?arg] by blast
  show "\<exists>p' arg. addArgument2 p snm nm nargs opt = Returns p' \<and>
            arg = Argument_ctor sn n opt nargs \<and>
            arguments p' = arguments p @ [arg] \<and>
            variables p' =
              variables p @ [Any_of (if fixed arg then Holder_string [] else Holder_vector [])] \<and>
            index p' sn = Some (length (arguments p)) \<and>
            index p' n = Some (length (arguments p)) \<and>
            (\<forall>k. k \<noteq> sn \<and> k \<noteq> n \<longrightarrow> index p' k = index p k) \<and>
            arguments p' ! length (arguments p) = arg \<and>
            (length (variables p) = length (arguments p) \<longrightarrow>
               variables p' ! length (arguments p) =
                 Any_of (if fixed arg then Holder_string [] else Holder_vector []))"
    using add i1 i2 i3 v insertArgument_arguments [of p ?arg]
      insertArgument_variables [of p ?arg] insertArgument_appended(1) [of p ?arg]
    by (intro exI [of _ ?p'] exI [of _ ?arg]) blast
qed

theorem duplicate_declaration_returns_witness:
  "(\<exists>p'. addArgument
       \<lparr>index = [''in'' \<mapsto> 0, ''i'' \<mapsto> 0], ignore_first = False, app_name = [],
        final_name = [], arguments = [Argument_ctor ''i'' ''in'' True (CHR 0x01)],
        variables = [Any_of (Holder_string [])]\<rparr> ''--in'' (CHR 0x01) True = Returns p' \<and>
      arguments p' = [Argument_ctor ''i'' ''in'' True (CHR 0x01),
                      Argument_ctor [] ''in'' True (CHR 0x01)] \<and>
      variables p' = [Any_of (Holder_string []), Any_of (Holder_string [])] \<and>
      index p' ''in'' = Some (Suc 0) \<and> index p' ''i'' = Some 0) \<and>
   (\<exists>p'. addArgument2
       \<lparr>index = [''in'' \<mapsto> 0, ''i'' \<mapsto> 0], ignore_first = False, app_name = [],
        final_name = [], arguments = [Argument_ctor ''i'' ''in'' True (CHR 0x01)],
        variables = [Any_of (Holder_string [])]\<rparr> ''-i'' ''--in'' (CHR 0x01) True = Returns p' \<and>
      arguments p' = [Argument_ctor ''i'' ''in'' True (CHR 0x01),
                      Argument_ctor ''i'' ''in'' True (CHR 0x01)] \<and>
      variables p' = [Any_of (Holder_string []), Any_of (Holder_string [])] \<and>
      index p' ''i'' = Some (Suc 0) \<and> index p' ''in'' = Some (Suc 0))"
proof -
  let ?P = "\<lparr>index = [''in'' \<mapsto> 0, ''i'' \<mapsto> 0], ignore_first = False, app_name = [],
        final_name = [], arguments = [Argument_ctor ''i'' ''in'' True (CHR 0x01)],
        variables = [Any_of (Holder_string [])]\<rparr>"
  note t = duplicate_declaration_returns [of "''--in''" "''in''" ?P "CHR 0x01" True "''-i''" "''i''"]
  have s1: "sanitize ''--in'' = Returns ''in''" and s2: "sanitize ''-i'' = Returns ''i''"
    by (simp_all add: sanitize_def)
  have h1: "sanitize ''--in'' = Returns ''in'' \<and> index ?P ''in'' \<noteq> None"
    using s1 by simp
  have h2: "sanitize ''-i'' = Returns ''i'' \<and> sanitize ''--in'' = Returns ''in'' \<and>
            (index ?P ''i'' \<noteq> None \<or> index ?P ''in'' \<noteq> None)"
    using s1 s2 by simp
  from t [THEN conjunct1, rule_format, OF h1]
  obtain p' where "addArgument ?P ''--in'' (CHR 0x01) True = Returns p'"
    and "arguments p' = arguments ?P @ [Argument_ctor [] ''in'' True (CHR 0x01)]"
    and "variables p' = variables ?P @
           [Any_of (if fixed (Argument_ctor [] ''in'' True (CHR 0x01))
                    then Holder_string [] else Holder_vector [])]"
    and "index p' ''in'' = Some (length (arguments ?P))"
    and "\<forall>k. k \<noteq> ''in'' \<longrightarrow> index p' k = index ?P k"
    by auto
  then have a: "\<exists>p'. addArgument ?P ''--in'' (CHR 0x01) True = Returns p' \<and>
      arguments p' = [Argument_ctor ''i'' ''in'' True (CHR 0x01),
                      Argument_ctor [] ''in'' True (CHR 0x01)] \<and>
      variables p' = [Any_of (Holder_string []), Any_of (Holder_string [])] \<and>
      index p' ''in'' = Some (Suc 0) \<and> index p' ''i'' = Some 0"
    by (intro exI [of _ p']) (simp add: fixed_def Argument_ctor_one)
  from t [THEN conjunct2, rule_format, OF h2]
  obtain q' where "addArgument2 ?P ''-i'' ''--in'' (CHR 0x01) True = Returns q'"
    and "arguments q' = arguments ?P @ [Argument_ctor ''i'' ''in'' True (CHR 0x01)]"
    and "variables q' = variables ?P @
           [Any_of (if fixed (Argument_ctor ''i'' ''in'' True (CHR 0x01))
                    then Holder_string [] else Holder_vector [])]"
    and "index q' ''i'' = Some (length (arguments ?P))"
    and "index q' ''in'' = Some (length (arguments ?P))"
    by auto
  then have b: "\<exists>p'. addArgument2 ?P ''-i'' ''--in'' (CHR 0x01) True = Returns p' \<and>
      arguments p' = [Argument_ctor ''i'' ''in'' True (CHR 0x01),
                      Argument_ctor ''i'' ''in'' True (CHR 0x01)] \<and>
      variables p' = [Any_of (Holder_string []), Any_of (Holder_string [])] \<and>
      index p' ''i'' = Some (Suc 0) \<and> index p' ''in'' = Some (Suc 0)"
    by (intro exI [of _ q']) (simp add: fixed_def Argument_ctor_one)
  show ?thesis by (rule conjI [OF a b])
qed

text \<open>
  The claim as stated in C3 fails: on the parser left by \<^verbatim>\<open>addArgument("--in", 1)\<close>, a second
  \<^verbatim>\<open>addArgument("--in", 1)\<close> returns, and the parser then has two slots where it had one.
\<close>

theorem duplicate_name_accepted:
  "addArgument
     \<lparr>index = [''in'' \<mapsto> 0], ignore_first = False, app_name = [], final_name = [],
      arguments = [Argument_ctor [] ''in'' True (CHR 0x01)],
      variables = [Any_of (Holder_string [])]\<rparr>
     ''--in'' (CHR 0x01) True
   = Returns
     \<lparr>index = [''in'' \<mapsto> 1], ignore_first = False, app_name = [], final_name = [],
      arguments = [Argument_ctor [] ''in'' True (CHR 0x01),
                   Argument_ctor [] ''in'' True (CHR 0x01)],
      variables = [Any_of (Holder_string []), Any_of (Holder_string [])]\<rparr>"
  by (simp add: addArgument_def sanitize_def insertArgument_def Let_def fixed_def
      Argument_ctor_one Argument_ctor_fields)

text \<open>The parser of that example is the one the first declaration leaves.\<close>

lemma first_declaration_of_in:
  "addArgument (ArgumentParser_new False) ''--in'' (CHR 0x01) True
   = Returns
     \<lparr>index = [''in'' \<mapsto> 0], ignore_first = False, app_name = [], final_name = [],
      arguments = [Argument_ctor [] ''in'' True (CHR 0x01)],
      variables = [Any_of (Holder_string [])]\<rparr>"
  by (simp add: addArgument_def sanitize_def insertArgument_def Let_def fixed_def
      Argument_ctor_one Argument_ctor_fields ArgumentParser_new_def)

text \<open>
  C4, as amended. \<^verbatim>\<open>addFinalArgument\<close> has no check for an earlier final argument. On a
  parser whose \<^verbatim>\<open>final_name_\<close> is already set, declaring another final argument returns
  normally: \<^verbatim>\<open>final_name_\<close> becomes the new name; the new descriptor is appended to the
  descriptors and a new slot to the slots, both otherwise as before; the new name, when
  not empty, is entered in the index at the new position, and nothing else changes.
\<close>

theorem second_final_returns:
  assumes "final_name p \<noteq> []"
  shows "\<exists>p'. addFinalArgument p nm nargs opt = Returns p' \<and>
           final_name p' = nm \<and>
           arguments p' = arguments p @ [Argument_ctor [] nm opt nargs] \<and>
           variables p' =
             variables p @ [Any_of (if fixed (Argument_ctor [] nm opt nargs)
                                    then Holder_string [] else Holder_vector [])] \<and>
           index p' = (if nm \<noteq> [] then (index p)(nm \<mapsto> length (arguments p)) else index p) \<and>
           app_name p' = app_name p \<and> ignore_first p' = ignore_first p"
proof -
  let ?q = "p\<lparr>final_name := nm\<rparr>"
  let ?arg = "Argument_ctor [] nm opt nargs"
  have "index (insertArgument ?q ?arg) =
          (if nm \<noteq> [] then (index p)(nm \<mapsto> length (arguments p)) else index p)"
    by (rule ext) (simp add: insertArgument_index Argument_ctor_fields)
  then show ?thesis
    by (simp add: addFinalArgument_def insertArgument_arguments insertArgument_variables
        insertArgument_rest)
qed

theorem second_final_returns_witness:
  "''out'' \<noteq> [] \<and>
   (\<exists>p'. addFinalArgument
       \<lparr>index = [''out'' \<mapsto> 0], ignore_first = False, app_name = [], final_name = ''out'',
        arguments = [Argument_ctor [] ''out'' False (CHR 0x01)],
        variables = [Any_of (Holder_string [])]\<rparr> ''rest'' (CHR 0x01) False = Returns p' \<and>
      final_name p' = ''rest'' \<and>
      arguments p' = [Argument_ctor [] ''out'' False (CHR 0x01),
                      Argument_ctor [] ''rest'' False (CHR 0x01)] \<and>
      variables p' = [Any_of (Holder_string []), Any_of (Holder_string [])] \<and>
      index p' = [''out'' \<mapsto> 0, ''rest'' \<mapsto> Suc 0] \<and>
      app_name p' = [] \<and> \<not> ignore_first p')"
  using second_final_returns [of "\<lparr>index = [''out'' \<mapsto> 0], ignore_first = False,
        app_name = [], final_name = ''out'',
        arguments = [Argument_ctor [] ''out'' False (CHR 0x01)],
        variables = [Any_of (Holder_string [])]\<rparr>" "''rest''" "CHR 0x01" False]
  by (simp add: fixed_def Argument_ctor_one)

text \<open>
  The claim as stated in C4 fails: after \<^verbatim>\<open>addFinalArgument("out")\<close>, the call
  \<^verbatim>\<open>addFinalArgument("rest")\<close> returns and \<^verbatim>\<open>final_name_\<close> is \<^verbatim>\<open>"rest"\<close>.
\<close>

theorem second_final_accepted:
  "addFinalArgument
     \<lparr>index = [''out'' \<mapsto> 0], ignore_first = False, app_name = [], final_name = ''out'',
      arguments = [Argument_ctor [] ''out'' False (CHR 0x01)],
      variables = [Any_of (Holder_string [])]\<rparr>
     ''rest'' (CHR 0x01) False
   = Returns
     \<lparr>index = [''out'' \<mapsto> 0, ''rest'' \<mapsto> 1], ignore_first = False, app_name = [],
      final_name = ''rest'',
      arguments = [Argument_ctor [] ''out'' False (CHR 0x01),
                   Argument_ctor [] ''rest'' False (CHR 0x01)],
      variables = [Any_of (Holder_string []), Any_of (Holder_string [])]\<rparr>"
  by (simp add: addFinalArgument_def insertArgument_def Let_def fixed_def
      Argument_ctor_one Argument_ctor_fields)

text \<open>The parser of that example is the one the first final declaration leaves.\<close>

lemma first_final_declaration:
  "addFinalArgument (ArgumentParser_new False) ''out'' (CHR 0x01) False
   = Returns
     \<lparr>index = [''out'' \<mapsto> 0], ignore_first = False, app_name = [], final_name = ''out'',
      arguments = [Argument_ctor [] ''out'' False (CHR 0x01)],
      variables = [Any_of (Holder_string [])]\<rparr>"
  by (simp add: addFinalArgument_def insertArgument_def Let_def fixed_def
      Argument_ctor_one Argument_ctor_fields ArgumentParser_new_def)

text \<open>
  C5, as amended. For every name given to \<^verbatim>\<open>addArgument\<close>, in either overload and in either
  position: a name of two characters is accepted exactly when its first character is
  \<open>-\<close> (the second character is not examined); a longer name is accepted exactly when it
  begins with \<open>--\<close>; a name of length 0 or 1 is rejected; every rejection is
  \<^verbatim>\<open>std::invalid_argument\<close> and makes the declaration fail with it; and an accepted name
  is stored in the new descriptor, and entered in the index, without its one leading
  dash (two characters) or its two leading dashes (longer). A name given to
  \<^verbatim>\<open>addFinalArgument\<close> is not checked: whatever it is, the declaration returns and the
  name is stored, and indexed when not empty, as given.
\<close>

theorem declaration_name_rules:
  "(length nm = 2 \<longrightarrow> ((\<exists>r. sanitize nm = Returns r) \<longleftrightarrow> nm ! 0 = CHR ''-'')) \<and>
   (2 < length nm \<longrightarrow> ((\<exists>r. sanitize nm = Returns r) \<longleftrightarrow> take 2 nm = ''--'')) \<and>
   (length nm < 2 \<longrightarrow> sanitize nm = Throws invalid_argument) \<and>
   ((\<forall>r. sanitize nm \<noteq> Returns r) \<longrightarrow>
      sanitize nm = Throws invalid_argument \<and>
      addArgument p nm nargs opt = Throws invalid_argument \<and>
      addArgument2 p nm other nargs opt = Throws invalid_argument \<and>
      addArgument2 p other nm nargs opt = Throws invalid_argument) \<and>
   (\<forall>r. sanitize nm = Returns r \<longrightarrow>
      ((length nm = 2 \<and> nm = ''-'' @ r) \<or> (2 < length nm \<and> nm = ''--'' @ r)) \<and>
      (\<exists>p'. addArgument p nm nargs opt = Returns p' \<and>
            arguments p' = arguments p @
              [if 2 < length nm then Argument_ctor [] r opt nargs
               else Argument_ctor r [] opt nargs] \<and>
            index p' r = Some (length (arguments p))) \<and>
      (\<forall>s. sanitize other = Returns s \<longrightarrow>
         (\<exists>p'. addArgument2 p nm other nargs opt = Returns p' \<and>
               arguments p' = arguments p @ [Argument_ctor r s opt nargs] \<and>
               index p' r = Some (length (arguments p)) \<and>
               index p' s = Some (length (arguments p))))) \<and>
   (\<exists>p'. addFinalArgument p nm nargs opt = Returns p' \<and>
         final_name p' = nm \<and>
         arguments p' = arguments p @ [Argument_ctor [] nm opt nargs] \<and>
         (nm \<noteq> [] \<longrightarrow> index p' nm = Some (length (arguments p))))"
proof -
  have two: "length nm = 2 \<Longrightarrow> \<exists>a b. nm = [a, b]"
    by (cases nm; cases "tl nm") auto
  have more: "2 < length nm \<Longrightarrow> \<exists>a b c r. nm = a # b # c # r"
    by (cases nm; cases "tl nm"; cases "tl (tl nm)") auto
  have c1: "length nm = 2 \<longrightarrow> ((\<exists>r. sanitize nm = Returns r) \<longleftrightarrow> nm ! 0 = CHR ''-'')"
    using two by (auto simp add: sanitize_def)
  have c2: "2 < length nm \<longrightarrow> ((\<exists>r. sanitize nm = Returns r) \<longleftrightarrow> take 2 nm = ''--'')"
    using more by (auto simp add: sanitize_def)
  have c3: "length nm < 2 \<longrightarrow> sanitize nm = Throws invalid_argument"
    by (simp add: sanitize_def)
  have c4: "(\<forall>r. sanitize nm \<noteq> Returns r) \<longrightarrow>
      sanitize nm = Throws invalid_argument \<and>
      addArgument p nm nargs opt = Throws invalid_argument \<and>
      addArgument2 p nm other nargs opt = Throws invalid_argument \<and>
      addArgument2 p other nm nargs opt = Throws invalid_argument"
  proof
    assume "\<forall>r. sanitize nm \<noteq> Returns r"
    then have t: "sanitize nm = Throws invalid_argument"
      using sanitize_outcome [of nm] by blast
    have "addArgument2 p other nm nargs opt = Throws invalid_argument"
      using sanitize_outcome [of other] t by (auto simp add: addArgument2_def)
    then show "sanitize nm = Throws invalid_argument \<and>
      addArgument p nm nargs opt = Throws invalid_argument \<and>
      addArgument2 p nm other nargs opt = Throws invalid_argument \<and>
      addArgument2 p other nm nargs opt = Throws invalid_argument"
      using t by (simp add: addArgument_def addArgument2_def)
  qed
  have c5: "\<forall>r. sanitize nm = Returns r \<longrightarrow>
      ((length nm = 2 \<and> nm = ''-'' @ r) \<or> (2 < length nm \<and> nm = ''--'' @ r)) \<and>
      (\<exists>p'. addArgument p nm nargs opt = Returns p' \<and>
            arguments p' = arguments p @
              [if 2 < length nm then Argument_ctor [] r opt nargs
               else Argument_ctor r [] opt nargs] \<and>
            index p' r = Some (length (arguments p))) \<and>
      (\<forall>s. sanitize other = Returns s \<longrightarrow>
         (\<exists>p'. addArgument2 p nm other nargs opt = Returns p' \<and>
               arguments p' = arguments p @ [Argument_ctor r s opt nargs] \<and>
               index p' r = Some (length (arguments p)) \<and>
               index p' s = Some (length (arguments p))))"
  proof (intro allI impI conjI)
    fix r
    assume h: "sanitize nm = Returns r"
    show "(length nm = 2 \<and> nm = ''-'' @ r) \<or> (2 < length nm \<and> nm = ''--'' @ r)"
      using h two more by (auto simp add: sanitize_def split: if_splits)
    show "\<exists>p'. addArgument p nm nargs opt = Returns p' \<and>
            arguments p' = arguments p @
              [if 2 < length nm then Argument_ctor [] r opt nargs
               else Argument_ctor r [] opt nargs] \<and>
            index p' r = Some (length (arguments p))"
      using h sanitize_nonempty [OF h]
      by (simp add: addArgument_def insertArgument_arguments insertArgument_index
          Argument_ctor_fields)
    fix s
    assume k: "sanitize other = Returns s"
    show "\<exists>p'. addArgument2 p nm other nargs opt = Returns p' \<and>
               arguments p' = arguments p @ [Argument_ctor r s opt nargs] \<and>
               index p' r = Some (length (arguments p)) \<and>
               index p' s = Some (length (arguments p))"
      using h k sanitize_nonempty [OF h] sanitize_nonempty [OF k]
      by (simp add: addArgument2_def insertArgument_arguments insertArgument_index
          Argument_ctor_fields)
  qed
  have c6: "\<exists>p'. addFinalArgument p nm nargs opt = Returns p' \<and>
         final_name p' = nm \<and>
         arguments p' = arguments p @ [Argument_ctor [] nm opt nargs] \<and>
         (nm \<noteq> [] \<longrightarrow> index p' nm = Some (length (arguments p)))"
    by (simp add: addFinalArgument_def insertArgument_arguments insertArgument_index
        insertArgument_rest Argument_ctor_fields)
  show ?thesis
    by (rule conjI [OF c1 conjI [OF c2 conjI [OF c3 conjI [OF c4 conjI [OF c5 c6]]]]])
qed

theorem declaration_name_rules_witness:
  "(\<exists>r. sanitize ''-x'' = Returns r) \<and>
   (\<exists>r. sanitize ''--in'' = Returns r) \<and>
   sanitize ''x'' = Throws invalid_argument \<and>
   addArgument (ArgumentParser_new False) ''-in'' (CHR 0x01) True = Throws invalid_argument \<and>
   addArgument2 (ArgumentParser_new False) ''-in'' ''--in'' (CHR 0x01) True
     = Throws invalid_argument \<and>
   (\<exists>p'. addArgument (ArgumentParser_new False) ''--in'' (CHR 0x01) True = Returns p' \<and>
         arguments p' = [Argument_ctor [] ''in'' True (CHR 0x01)] \<and>
         index p' ''in'' = Some 0) \<and>
   (\<exists>p'. addArgument2 (ArgumentParser_new False) ''--in'' ''-i'' (CHR 0x01) True = Returns p' \<and>
         arguments p' = [Argument_ctor ''in'' ''i'' True (CHR 0x01)] \<and>
         index p' ''in'' = Some 0 \<and> index p' ''i'' = Some 0) \<and>
   (\<exists>p'. addFinalArgument (ArgumentParser_new False) ''--in'' (CHR 0x01) True = Returns p' \<and>
         final_name p' = ''--in'' \<and>
         arguments p' = [Argument_ctor [] ''--in'' True (CHR 0x01)] \<and>
         index p' ''--in'' = Some 0)"
proof -
  note short = declaration_name_rules [of "''-x''" "ArgumentParser_new False" "CHR 0x01" True "''-i''"]
  note long = declaration_name_rules [of "''--in''" "ArgumentParser_new False" "CHR 0x01" True "''-i''"]
  note one = declaration_name_rules [of "''x''" "ArgumentParser_new False" "CHR 0x01" True "''-i''"]
  note bad = declaration_name_rules [of "''-in''" "ArgumentParser_new False" "CHR 0x01" True "''--in''"]
  have a: "\<exists>r. sanitize ''-x'' = Returns r"
    using short [THEN conjunct1] by simp
  have b: "\<exists>r. sanitize ''--in'' = Returns r"
    using long [THEN conjunct2, THEN conjunct1] by simp
  have c: "sanitize ''x'' = Throws invalid_argument"
    using one [THEN conjunct2, THEN conjunct2, THEN conjunct1] by simp
  have rej: "\<forall>r. sanitize ''-in'' \<noteq> Returns r"
    using bad [THEN conjunct2, THEN conjunct1] by simp
  note thrown = bad [THEN conjunct2, THEN conjunct2, THEN conjunct2, THEN conjunct1,
      THEN mp, OF rej]
  have d: "addArgument (ArgumentParser_new False) ''-in'' (CHR 0x01) True = Throws invalid_argument"
    using thrown by blast
  have d2: "addArgument2 (ArgumentParser_new False) ''-in'' ''--in'' (CHR 0x01) True
              = Throws invalid_argument"
    using thrown by blast
  have s: "sanitize ''--in'' = Returns ''in''" and s': "sanitize ''-i'' = Returns ''i''"
    by (simp_all add: sanitize_def)
  note acc = long [THEN conjunct2, THEN conjunct2, THEN conjunct2, THEN conjunct2,
      THEN conjunct1, rule_format, OF s]
  have e: "\<exists>p'. addArgument (ArgumentParser_new False) ''--in'' (CHR 0x01) True = Returns p' \<and>
         arguments p' = [Argument_ctor [] ''in'' True (CHR 0x01)] \<and>
         index p' ''in'' = Some 0"
    using acc [THEN conjunct2, THEN conjunct1]
    by (simp add: ArgumentParser_new_def)
  have f: "\<exists>p'. addArgument2 (ArgumentParser_new False) ''--in'' ''-i'' (CHR 0x01) True = Returns p' \<and>
         arguments p' = [Argument_ctor ''in'' ''i'' True (CHR 0x01)] \<and>
         index p' ''in'' = Some 0 \<and> index p' ''i'' = Some 0"
    using acc [THEN conjunct2, THEN conjunct2, rule_format, OF s']
    by (simp add: ArgumentParser_new_def)
  have g: "\<exists>p'. addFinalArgument (ArgumentParser_new False) ''--in'' (CHR 0x01) True = Returns p' \<and>
         final_name p' = ''--in'' \<and>
         arguments p' = [Argument_ctor [] ''--in'' True (CHR 0x01)] \<and>
         index p' ''--in'' = Some 0"
    using long [THEN conjunct2, THEN conjunct2, THEN conjunct2, THEN conjunct2, THEN conjunct2]
    by (simp add: ArgumentParser_new_def)
  show ?thesis
    by (rule conjI [OF a conjI [OF b conjI [OF c conjI [OF d conjI [OF d2
          conjI [OF e conjI [OF f g]]]]]]])
qed

text \<open>
  The claim as stated in C5 fails in two ways: the two-character name \<^verbatim>\<open>-!\<close> is accepted,
  and \<open>!\<close> is not alphanumeric; and \<^verbatim>\<open>addFinalArgument\<close> accepts the one-character name
  \<^verbatim>\<open>x\<close>, and stores the name \<^verbatim>\<open>--out\<close> with its dashes.
\<close>

theorem declared_names_unchecked:
  "sanitize ''-!'' = Returns ''!'' \<and>
   addFinalArgument (ArgumentParser_new False) ''x'' (CHR 0x01) False =
     Returns \<lparr>index = [''x'' \<mapsto> 0], ignore_first = False, app_name = [],
              final_name = ''x'',
              arguments = [\<lparr>short_name = [], name = ''x'', optional = False,
                            nargs_u = fixed_nargs 1\<rparr>],
              variables = [Any_of (Holder_string [])]\<rparr> \<and>
   addFinalArgument (ArgumentParser_new False) ''--out'' (CHR 0x01) False =
     Returns \<lparr>index = [''--out'' \<mapsto> 0], ignore_first = False, app_name = [],
              final_name = ''--out'',
              arguments = [\<lparr>short_name = [], name = ''--out'', optional = False,
                            nargs_u = fixed_nargs 1\<rparr>],
              variables = [Any_of (Holder_string [])]\<rparr>"
  by (simp add: sanitize_def addFinalArgument_def insertArgument_def Let_def fixed_def
      Argument_ctor_def size_t_of_char_def ArgumentParser_new_def)

subsection \<open>The usage string\<close>

text \<open>
  Both loops of \<^verbatim>\<open>usage\<close> run the same wrap step over the rendered forms of the
  descriptors they do not skip; the second loop's printing to \<^verbatim>\<open>std::cout\<close> does not
  change the string.
\<close>

lemma usage_required_fold:
  "usage_required fin indent args st =
     fold (wrap_append indent)
       (map toString (filter (\<lambda>a. \<not> optional a \<and> name a \<noteq> fin) args)) st"
  by (induction args arbitrary: st) simp_all

lemma wrap_append_cout:
  "help_stream (wrap_append indent s (st\<lparr>cout := c\<rparr>)) = help_stream (wrap_append indent s st)"
  "linelength (wrap_append indent s (st\<lparr>cout := c\<rparr>)) = linelength (wrap_append indent s st)"
  by (simp_all add: wrap_append_def Let_def)

lemma wrap_append_core:
  assumes "help_stream st = help_stream st'" and "linelength st = linelength st'"
  shows "help_stream (wrap_append indent s st) = help_stream (wrap_append indent s st') \<and>
         linelength (wrap_append indent s st) = linelength (wrap_append indent s st')"
  using assms by (simp add: wrap_append_def Let_def)

lemma usage_optional_fold:
  assumes "help_stream st = help_stream st'" and "linelength st = linelength st'"
  shows "help_stream (usage_optional fin indent args st) =
           help_stream (fold (wrap_append indent)
             (map toString (filter (\<lambda>a. optional a \<and> name a \<noteq> fin) args)) st') \<and>
         linelength (usage_optional fin indent args st) =
           linelength (fold (wrap_append indent)
             (map toString (filter (\<lambda>a. optional a \<and> name a \<noteq> fin) args)) st')"
  using assms
proof (induction args arbitrary: st st')
  case Nil
  then show ?case by simp
next
  case (Cons a args)
  show ?case
  proof (cases "optional a \<and> name a \<noteq> fin")
    case True
    let ?s = "st\<lparr>cout := cout st @ [length (help_stream st) mod 80]\<rparr>"
    have "help_stream ?s = help_stream st'" "linelength ?s = linelength st'"
      using Cons.prems by simp_all
    then have core: "help_stream (wrap_append indent (toString a) ?s) =
                 help_stream (wrap_append indent (toString a) st') \<and>
               linelength (wrap_append indent (toString a) ?s) =
                 linelength (wrap_append indent (toString a) st')"
      by (rule wrap_append_core)
    show ?thesis
      using True Cons.IH [OF core [THEN conjunct1] core [THEN conjunct2]] by simp
  next
    case False
    then show ?thesis
      using Cons.IH [OF Cons.prems] by auto
  qed
qed

text \<open>
  The layout of the string for every parser: the prefix, then the descriptors that are
  not optional and whose long name differs from \<^verbatim>\<open>final_name_\<close>, then the optional ones
  whose long name differs from \<^verbatim>\<open>final_name_\<close>, each group in declaration order and each
  descriptor preceded by nothing or by a line break with the indentation, then (when
  \<^verbatim>\<open>final_name_\<close> is not empty) the final descriptor.
\<close>

lemma map2_map_right:
  "map2 f xs (map g ys) = map2 (\<lambda>x y. f x (g y)) xs ys"
proof (induction xs arbitrary: ys)
  case Nil
  show ?case by simp
next
  case (Cons x xs)
  then show ?case by (cases ys) simp_all
qed

lemma wrap_append_help:
  "\<exists>sep. (sep = [] \<or> sep = newline # replicate i CHR '' '') \<and>
         help_stream (wrap_append i r st) = help_stream st @ sep @ r @ '' ''"
  by (simp add: wrap_append_def Let_def)

lemma fold_wrap_layout:
  "\<exists>seps. length seps = length rs \<and>
          (\<forall>sep \<in> set seps. sep = [] \<or> sep = newline # replicate i CHR '' '') \<and>
          help_stream (fold (wrap_append i) rs st) =
            help_stream st @ concat (map2 (\<lambda>sep r. sep @ r @ '' '') seps rs)"
proof (induction rs arbitrary: st)
  case Nil
  show ?case by simp
next
  case (Cons r rs)
  from wrap_append_help [of i r st]
  obtain sep where sep: "sep = [] \<or> sep = newline # replicate i CHR '' ''"
    and h: "help_stream (wrap_append i r st) = help_stream st @ sep @ r @ '' ''"
    by blast
  from Cons.IH [of "wrap_append i r st"]
  obtain seps where len: "length seps = length rs"
    and all: "\<forall>sep \<in> set seps. sep = [] \<or> sep = newline # replicate i CHR '' ''"
    and f: "help_stream (fold (wrap_append i) rs (wrap_append i r st)) =
              help_stream (wrap_append i r st) @
              concat (map2 (\<lambda>sep r. sep @ r @ '' '') seps rs)"
    by blast
  show ?case
    using sep len all f h by (intro exI [of _ "sep # seps"]) simp
qed

lemma usage_loops_layout:
  "\<exists>seps. length seps =
            length (filter (\<lambda>a. \<not> optional a \<and> name a \<noteq> fin) args @
                    filter (\<lambda>a. optional a \<and> name a \<noteq> fin) args) \<and>
          (\<forall>sep \<in> set seps. sep = [] \<or> sep = newline # replicate i CHR '' '') \<and>
          help_stream (usage_optional fin i args (usage_required fin i args st)) =
            help_stream st @
            concat (map2 (\<lambda>sep a. sep @ toString a @ '' '') seps
              (filter (\<lambda>a. \<not> optional a \<and> name a \<noteq> fin) args @
               filter (\<lambda>a. optional a \<and> name a \<noteq> fin) args))"
proof -
  let ?req = "filter (\<lambda>a. \<not> optional a \<and> name a \<noteq> fin) args"
  let ?opt = "filter (\<lambda>a. optional a \<and> name a \<noteq> fin) args"
  let ?st1 = "usage_required fin i args st"
  have "help_stream (usage_optional fin i args ?st1) =
          help_stream (fold (wrap_append i) (map toString ?opt) ?st1)"
    using usage_optional_fold [of ?st1 ?st1 fin i args] by simp
  then have eq: "help_stream (usage_optional fin i args ?st1) =
          help_stream (fold (wrap_append i) (map toString (?req @ ?opt)) st)"
    by (simp only: usage_required_fold map_append fold_append comp_apply)
  from fold_wrap_layout [of "map toString (?req @ ?opt)" i st]
  obtain seps where len: "length seps = length (map toString (?req @ ?opt))"
    and all: "\<forall>sep \<in> set seps. sep = [] \<or> sep = newline # replicate i CHR '' ''"
    and f: "help_stream (fold (wrap_append i) (map toString (?req @ ?opt)) st) =
              help_stream st @
              concat (map2 (\<lambda>sep r. sep @ r @ '' '') seps (map toString (?req @ ?opt)))"
    by blast
  have "map2 (\<lambda>sep r. sep @ r @ '' '') seps (map toString (?req @ ?opt)) =
        map2 (\<lambda>sep a. sep @ toString a @ '' '') seps (?req @ ?opt)"
    by (rule map2_map_right)
  with len all f eq show ?thesis
    by (intro exI [of _ seps]) simp
qed

lemma usage_layout_no_final:
  assumes "final_name p = []"
  shows "\<exists>seps c.
           length seps =
             length (filter (\<lambda>a. \<not> optional a \<and> name a \<noteq> []) (arguments p) @
                     filter (\<lambda>a. optional a \<and> name a \<noteq> []) (arguments p)) \<and>
           (\<forall>sep \<in> set seps.
              sep = [] \<or>
              sep = newline # replicate (length (''Usage: '' @ app_name p @ '' '')) CHR '' '') \<and>
           usage p =
             Returns
               ((''Usage: '' @ app_name p @ '' '') @
                concat (map2 (\<lambda>sep a. sep @ toString a @ '' '') seps
                  (filter (\<lambda>a. \<not> optional a \<and> name a \<noteq> []) (arguments p) @
                   filter (\<lambda>a. optional a \<and> name a \<noteq> []) (arguments p))),
                c, p)"
proof -
  let ?help0 = "''Usage: '' @ app_name p @ '' ''"
  let ?st0 = "\<lparr>help_stream = ?help0, linelength = 0, cout = []\<rparr>"
  let ?st2 = "usage_optional [] (length ?help0) (arguments p)
                (usage_required [] (length ?help0) (arguments p) ?st0)"
  have u: "usage p = Returns (help_stream ?st2, cout ?st2, p)"
    using assms by (simp add: usage_def Let_def)
  from usage_loops_layout [of "[]" "arguments p" "length ?help0" ?st0]
  obtain seps where
    "length seps =
       length (filter (\<lambda>a. \<not> optional a \<and> name a \<noteq> []) (arguments p) @
               filter (\<lambda>a. optional a \<and> name a \<noteq> []) (arguments p))"
    "\<forall>sep \<in> set seps. sep = [] \<or> sep = newline # replicate (length ?help0) CHR '' ''"
    "help_stream ?st2 =
       help_stream ?st0 @
       concat (map2 (\<lambda>sep a. sep @ toString a @ '' '') seps
         (filter (\<lambda>a. \<not> optional a \<and> name a \<noteq> []) (arguments p) @
          filter (\<lambda>a. optional a \<and> name a \<noteq> []) (arguments p)))"
    by blast
  with u show ?thesis
    by (intro exI [of _ seps] exI [of _ "cout ?st2"]) simp
qed

lemma usage_layout_final:
  assumes "final_name p \<noteq> []"
    and "index p (final_name p) = Some N" and "N < length (arguments p)"
  shows "\<exists>seps sepf c.
           length seps =
             length (filter (\<lambda>a. \<not> optional a \<and> name a \<noteq> final_name p) (arguments p) @
                     filter (\<lambda>a. optional a \<and> name a \<noteq> final_name p) (arguments p)) \<and>
           (\<forall>sep \<in> set (sepf # seps).
              sep = [] \<or>
              sep = newline # replicate (length (''Usage: '' @ app_name p @ '' '')) CHR '' '') \<and>
           usage p =
             Returns
               ((''Usage: '' @ app_name p @ '' '') @
                concat (map2 (\<lambda>sep a. sep @ toString a @ '' '') seps
                  (filter (\<lambda>a. \<not> optional a \<and> name a \<noteq> final_name p) (arguments p) @
                   filter (\<lambda>a. optional a \<and> name a \<noteq> final_name p) (arguments p))) @
                sepf @ toString (arguments p ! N),
                c, p)"
proof -
  let ?help0 = "''Usage: '' @ app_name p @ '' ''"
  let ?st0 = "\<lparr>help_stream = ?help0, linelength = 0, cout = []\<rparr>"
  let ?st2 = "usage_optional (final_name p) (length ?help0) (arguments p)
                (usage_required (final_name p) (length ?help0) (arguments p) ?st0)"
  let ?argstr = "toString (arguments p ! N)"
  let ?sepf = "if length ?argstr + length (help_stream ?st2) mod 80 > 80
               then newline # replicate (length ?help0) CHR '' '' else []"
  have u: "usage p = Returns (help_stream ?st2 @ ?sepf @ ?argstr, cout ?st2, p)"
    using assms by (simp add: usage_def Let_def)
  from usage_loops_layout [of "final_name p" "arguments p" "length ?help0" ?st0]
  obtain seps where
    "length seps =
       length (filter (\<lambda>a. \<not> optional a \<and> name a \<noteq> final_name p) (arguments p) @
               filter (\<lambda>a. optional a \<and> name a \<noteq> final_name p) (arguments p))"
    "\<forall>sep \<in> set seps. sep = [] \<or> sep = newline # replicate (length ?help0) CHR '' ''"
    "help_stream ?st2 =
       help_stream ?st0 @
       concat (map2 (\<lambda>sep a. sep @ toString a @ '' '') seps
         (filter (\<lambda>a. \<not> optional a \<and> name a \<noteq> final_name p) (arguments p) @
          filter (\<lambda>a. optional a \<and> name a \<noteq> final_name p) (arguments p)))"
    by blast
  with u show ?thesis
    by (intro exI [of _ seps] exI [of _ ?sepf] exI [of _ "cout ?st2"]) simp
qed

text \<open>
  Wrapping, where no descriptor is skipped: three descriptors that all have a long name,
  with no final argument declared and rendered forms of 85 characters in total, give a
  string with one line break, placed before the first descriptor (in the order of
  rendering) with which the running total exceeds 80, and followed by as many spaces as
  the prefix has characters.
\<close>

lemma wrap_three:
  assumes "linelength st = 0" and "length x + length y + length z = 85"
  shows "\<exists>k<3.
           help_stream (fold (wrap_append i) [x, y, z] st) =
             help_stream st @ concat (map (\<lambda>r. r @ '' '') (take k [x, y, z])) @
             newline # replicate i CHR '' '' @
             concat (map (\<lambda>r. r @ '' '') (drop k [x, y, z])) \<and>
           sum_list (map length (take k [x, y, z])) \<le> 80 \<and>
           80 < sum_list (map length (take (Suc k) [x, y, z]))"
proof -
  consider (first) "80 < length x"
    | (second) "length x \<le> 80" "80 < length x + length y"
    | (third) "length x + length y \<le> 80"
    by linarith
  then show ?thesis
  proof cases
    case first
    with assms show ?thesis
      by (intro exI [of _ 0]) (simp add: wrap_append_def Let_def)
  next
    case second
    with assms show ?thesis
      by (intro exI [of _ "Suc 0"]) (simp add: wrap_append_def Let_def)
  next
    case third
    with assms show ?thesis
      by (intro exI [of _ "Suc (Suc 0)"]) (simp add: wrap_append_def Let_def)
  qed
qed

lemma sum_list_filter_split:
  "sum_list (map f (filter P xs)) + sum_list (map f (filter (\<lambda>x. \<not> P x) xs)) =
     (sum_list (map f xs) :: nat)"
  by (induction xs) simp_all

lemma length_three: "length rs = 3 \<Longrightarrow> \<exists>x y z. rs = [x, y, z]"
  by (cases rs; cases "tl rs"; cases "tl (tl rs)") auto

lemma usage_wraps_once:
  assumes args: "arguments p = [a1, a2, a3]"
    and nofinal: "final_name p = []"
    and named: "name a1 \<noteq> []" "name a2 \<noteq> []" "name a3 \<noteq> []"
    and total: "length (toString a1) + length (toString a2) + length (toString a3) = 85"
  shows "\<exists>k<3. \<exists>c.
           usage p =
             Returns
               ((''Usage: '' @ app_name p @ '' '') @
                concat (map (\<lambda>r. r @ '' '')
                  (take k (map toString
                     (filter (\<lambda>a. \<not> optional a) [a1, a2, a3] @
                      filter optional [a1, a2, a3])))) @
                newline # replicate (length (''Usage: '' @ app_name p @ '' '')) CHR '' '' @
                concat (map (\<lambda>r. r @ '' '')
                  (drop k (map toString
                     (filter (\<lambda>a. \<not> optional a) [a1, a2, a3] @
                      filter optional [a1, a2, a3])))),
                c, p) \<and>
           sum_list (map length (take k (map toString
              (filter (\<lambda>a. \<not> optional a) [a1, a2, a3] @
               filter optional [a1, a2, a3])))) \<le> 80 \<and>
           80 < sum_list (map length (take (Suc k) (map toString
              (filter (\<lambda>a. \<not> optional a) [a1, a2, a3] @
               filter optional [a1, a2, a3]))))"
proof -
  let ?as = "[a1, a2, a3]"
  let ?req = "filter (\<lambda>a. \<not> optional a) ?as"
  let ?opt = "filter optional ?as"
  let ?rs = "map toString (?req @ ?opt)"
  let ?help0 = "''Usage: '' @ app_name p @ '' ''"
  let ?st0 = "\<lparr>help_stream = ?help0, linelength = 0, cout = []\<rparr>"
  let ?i = "length ?help0"
  have req: "filter (\<lambda>a. \<not> optional a \<and> name a \<noteq> []) ?as = ?req"
    using named by simp
  have opt: "filter (\<lambda>a. optional a \<and> name a \<noteq> []) ?as = ?opt"
    using named by simp
  let ?st1 = "usage_required [] ?i ?as ?st0"
  let ?st2 = "usage_optional [] ?i ?as ?st1"
  have st1: "?st1 = fold (wrap_append ?i) (map toString ?req) ?st0"
    by (simp only: usage_required_fold req)
  have "help_stream ?st2 =
          help_stream (fold (wrap_append ?i) (map toString ?opt) ?st1)"
    using usage_optional_fold [of ?st1 ?st1 "[]" ?i ?as] by (simp only: opt)
  then have st2: "help_stream ?st2 = help_stream (fold (wrap_append ?i) ?rs ?st0)"
    by (simp only: st1 map_append fold_append comp_apply)
  have "length ?req + length ?opt = 3"
    using sum_length_filter_compl [of "\<lambda>a. \<not> optional a" ?as] by simp
  then have "length ?rs = 3" by simp
  from length_three [OF this] obtain x y z where rs: "?rs = [x, y, z]"
    by (elim exE)
  have "sum_list (map (length \<circ> toString) ?req) + sum_list (map (length \<circ> toString) ?opt) =
          sum_list (map (length \<circ> toString) ?as)"
    using sum_list_filter_split [of "length \<circ> toString" "\<lambda>a. \<not> optional a" ?as] by simp
  then have "sum_list (map length ?rs) = 85"
    using total by (simp add: comp_def)
  then have sum: "length x + length y + length z = 85"
    by (simp only: rs) simp
  have "linelength ?st0 = 0" by simp
  from wrap_three [OF this sum, of ?i]
  obtain k where k: "k < 3"
    and h: "help_stream (fold (wrap_append ?i) [x, y, z] ?st0) =
             help_stream ?st0 @ concat (map (\<lambda>r. r @ '' '') (take k [x, y, z])) @
             newline # replicate ?i CHR '' '' @
             concat (map (\<lambda>r. r @ '' '') (drop k [x, y, z]))"
    and le: "sum_list (map length (take k [x, y, z])) \<le> 80"
    and gt: "80 < sum_list (map length (take (Suc k) [x, y, z]))"
    by blast
  have u: "usage p = Returns (help_stream ?st2, cout ?st2, p)"
    using args nofinal by (simp add: usage_def Let_def)
  have "help_stream ?st2 =
          ?help0 @ concat (map (\<lambda>r. r @ '' '') (take k ?rs)) @
          newline # replicate ?i CHR '' '' @
          concat (map (\<lambda>r. r @ '' '') (drop k ?rs))"
    using h by (simp only: st2 rs) simp
  with u k le gt show ?thesis
    by (simp only: rs) blast
qed

text \<open>
  When neither the names nor the program name contain a line break, that break is the
  only one in the string.
\<close>

lemma toupper_newline: "toupper c = newline \<Longrightarrow> c = newline"
  by (simp add: toupper_def newline_def split: if_splits)

lemma upper_newline:
  assumes "newline \<in> set (upper s)"
  shows "newline \<in> set s"
proof -
  from assms obtain c where c: "c \<in> set s" and t: "toupper c = newline"
    unfolding upper_def by (metis (no_types) imageE list.set_map)
  from t have "c = newline" by (rule toupper_newline)
  with c show ?thesis by simp
qed

lemma toString_newline:
  assumes "newline \<notin> set (name a)" and "newline \<notin> set (short_name a)"
  shows "newline \<notin> set (toString a)"
proof -
  have u: "newline \<notin> set (upper (short_name a))" "newline \<notin> set (upper (name a))"
    using assms upper_newline by blast+
  have c: "newline \<noteq> CHR ''[''" "newline \<noteq> CHR '']''" "newline \<noteq> CHR ''-''"
    "newline \<noteq> CHR '' ''" "newline \<noteq> CHR ''.''"
    by (simp_all add: newline_def)
  show ?thesis
    using assms u c
    by (cases "nargs_u a") (auto simp add: toString_def Let_def split: if_splits)
qed

lemma count_list_rendered:
  assumes "\<forall>r \<in> set rs. newline \<notin> set r"
  shows "count_list (concat (map (\<lambda>r. r @ '' '') rs)) newline = 0"
  using assms by (induction rs) (simp_all add: newline_def count_list_0_iff)

lemma usage_wraps_once_line_breaks:
  assumes args: "arguments p = [a1, a2, a3]"
    and nofinal: "final_name p = []"
    and named: "name a1 \<noteq> []" "name a2 \<noteq> []" "name a3 \<noteq> []"
    and total: "length (toString a1) + length (toString a2) + length (toString a3) = 85"
    and plain: "newline \<notin> set (app_name p)"
      "\<forall>a \<in> set [a1, a2, a3]. newline \<notin> set (name a) \<and> newline \<notin> set (short_name a)"
  shows "\<exists>s c. usage p = Returns (s, c, p) \<and> count_list s newline = 1"
proof -
  let ?rs = "map toString (filter (\<lambda>a. \<not> optional a) [a1, a2, a3] @
                          filter optional [a1, a2, a3])"
  let ?help0 = "''Usage: '' @ app_name p @ '' ''"
  from usage_wraps_once [OF args nofinal named total]
  obtain k c where
    u: "usage p =
          Returns (?help0 @ concat (map (\<lambda>r. r @ '' '') (take k ?rs)) @
                   newline # replicate (length ?help0) CHR '' '' @
                   concat (map (\<lambda>r. r @ '' '') (drop k ?rs)), c, p)"
    by blast
  have "\<forall>r \<in> set ?rs. newline \<notin> set r"
    using plain(2) toString_newline by auto
  then have "\<forall>r \<in> set (take k ?rs). newline \<notin> set r" "\<forall>r \<in> set (drop k ?rs). newline \<notin> set r"
    by (meson in_set_takeD in_set_dropD)+
  then have parts: "count_list (concat (map (\<lambda>r. r @ '' '') (take k ?rs))) newline = 0"
    "count_list (concat (map (\<lambda>r. r @ '' '') (drop k ?rs))) newline = 0"
    by (simp_all only: count_list_rendered)
  have pre: "count_list ?help0 newline = 0"
    using plain(1) by (simp add: newline_def count_list_0_iff)
  have pad: "count_list (replicate (length ?help0) CHR '' '') newline = 0"
    by (simp add: newline_def count_list_0_iff)
  have "count_list (?help0 @ concat (map (\<lambda>r. r @ '' '') (take k ?rs)) @
                   newline # replicate (length ?help0) CHR '' '' @
                   concat (map (\<lambda>r. r @ '' '') (drop k ?rs))) newline = 1"
    using parts pre pad by (simp only: count_list_append count_list.simps) simp
  with u show ?thesis by blast
qed

text \<open>
  C8. The claim: three non-final descriptors whose rendered forms total 85 characters
  give a usage string with exactly one line break, before the descriptor that would
  take the line past 80. The code does not do that for the three optional descriptors
  \<^verbatim>\<open>--configuration-file-for-the-servers\<close>, \<^verbatim>\<open>-a\<close> and \<^verbatim>\<open>-b\<close>, each of fixed count 1, with
  no final argument declared. Their rendered forms have 73, 6 and 6 characters. Both
  loops of \<^verbatim>\<open>usage\<close> skip \<^verbatim>\<open>-a\<close> and \<^verbatim>\<open>-b\<close>, whose empty long name equals the empty
  \<^verbatim>\<open>final_name_\<close> (lines 257, 272), so the string holds one descriptor and no line break.
  (Where every descriptor has a long name the claim holds: \<open>usage_wraps_once\<close> and
  \<open>usage_wraps_once_line_breaks\<close> above.)
\<close>

theorem usage_three_descriptors_no_break:
  "length (toString (Argument_ctor [] ''configuration-file-for-the-servers'' True (CHR 0x01))) +
   length (toString (Argument_ctor ''a'' [] True (CHR 0x01))) +
   length (toString (Argument_ctor ''b'' [] True (CHR 0x01))) = 85 \<and>
   usage \<lparr>index = [''configuration-file-for-the-servers'' \<mapsto> 0, ''a'' \<mapsto> 1, ''b'' \<mapsto> 2],
          ignore_first = False, app_name = [], final_name = [],
          arguments = [Argument_ctor [] ''configuration-file-for-the-servers'' True (CHR 0x01),
                       Argument_ctor ''a'' [] True (CHR 0x01),
                       Argument_ctor ''b'' [] True (CHR 0x01)],
          variables = [Any_of (Holder_string []), Any_of (Holder_string []),
                       Any_of (Holder_string [])]\<rparr>
   = Returns
      (''Usage:  [--configuration-file-for-the-servers CONFIGURATION-FILE-FOR-THE-SERVERS] '',
       [8],
       \<lparr>index = [''configuration-file-for-the-servers'' \<mapsto> 0, ''a'' \<mapsto> 1, ''b'' \<mapsto> 2],
          ignore_first = False, app_name = [], final_name = [],
          arguments = [Argument_ctor [] ''configuration-file-for-the-servers'' True (CHR 0x01),
                       Argument_ctor ''a'' [] True (CHR 0x01),
                       Argument_ctor ''b'' [] True (CHR 0x01)],
          variables = [Any_of (Holder_string []), Any_of (Holder_string []),
                       Any_of (Holder_string [])]\<rparr>)"
  by (simp add: usage_def Let_def Argument_ctor_fields Argument_ctor_one toString_def
      upper_def toupper_def wrap_append_def)

text \<open>The parser of that example is the one the three declarations leave.\<close>

lemma three_descriptors_declared:
  "bind_outcome
     (addArgument (ArgumentParser_new False) ''--configuration-file-for-the-servers''
        (CHR 0x01) True)
     (\<lambda>p1. bind_outcome (addArgument p1 ''-a'' (CHR 0x01) True)
        (\<lambda>p2. addArgument p2 ''-b'' (CHR 0x01) True))
   = Returns
       \<lparr>index = [''configuration-file-for-the-servers'' \<mapsto> 0, ''a'' \<mapsto> 1, ''b'' \<mapsto> 2],
          ignore_first = False, app_name = [], final_name = [],
          arguments = [Argument_ctor [] ''configuration-file-for-the-servers'' True (CHR 0x01),
                       Argument_ctor ''a'' [] True (CHR 0x01),
                       Argument_ctor ''b'' [] True (CHR 0x01)],
          variables = [Any_of (Holder_string []), Any_of (Holder_string []),
                       Any_of (Holder_string [])]\<rparr>"
  by (simp add: addArgument_def sanitize_def insertArgument_def Let_def fixed_def
      Argument_ctor_one Argument_ctor_fields ArgumentParser_new_def numeral_2_eq_2)

text \<open>
  C9. The claim: the usage string shows every non-optional non-final descriptor, then
  every optional non-final descriptor in brackets, then the final descriptor. The code
  leaves out descriptors: with no final argument declared, \<^verbatim>\<open>final_name_\<close> is empty, and a
  descriptor declared by its short name alone has an empty long name, so the test
  \<^verbatim>\<open>arg.name.compare(final_name_) == 0\<close> takes it for the final one and skips it. After
  \<^verbatim>\<open>addArgument("-x", 1)\<close> the rendered form \<^verbatim>\<open>[-x X]\<close> is not in the string. (The order
  of what is rendered is the claim's: \<open>usage_layout_no_final\<close> and \<open>usage_layout_final\<close>
  above.)
\<close>

theorem usage_omits_short_only:
  "toString (Argument_ctor ''x'' [] True (CHR 0x01)) = ''[-x X]'' \<and>
   usage \<lparr>index = [''x'' \<mapsto> 0], ignore_first = False, app_name = [], final_name = [],
          arguments = [Argument_ctor ''x'' [] True (CHR 0x01)],
          variables = [Any_of (Holder_string [])]\<rparr>
   = Returns (''Usage:  '', [],
       \<lparr>index = [''x'' \<mapsto> 0], ignore_first = False, app_name = [], final_name = [],
        arguments = [Argument_ctor ''x'' [] True (CHR 0x01)],
        variables = [Any_of (Holder_string [])]\<rparr>)"
  by (simp add: usage_def Let_def Argument_ctor_fields Argument_ctor_one toString_def
      upper_def toupper_def)

text \<open>The parser of that example is the one the declaration leaves.\<close>

lemma short_only_declared:
  "addArgument (ArgumentParser_new False) ''-x'' (CHR 0x01) True
   = Returns \<lparr>index = [''x'' \<mapsto> 0], ignore_first = False, app_name = [], final_name = [],
          arguments = [Argument_ctor ''x'' [] True (CHR 0x01)],
          variables = [Any_of (Holder_string [])]\<rparr>"
  by (simp add: addArgument_def sanitize_def insertArgument_def Let_def fixed_def
      Argument_ctor_one Argument_ctor_fields ArgumentParser_new_def)

text \<open>
  C10, as amended. In the rendered form of one descriptor, after the opening bracket of
  an optional descriptor and the dashed name: for fixed count \<open>N\<close> the upper-cased name is
  written \<open>min N 3\<close> times, each after a space, followed by \<^verbatim>\<open>" ..."\<close> when \<open>N > 3\<close>; for
  \<open>*\<close> the placeholders are \<^verbatim>\<open>[NAME NAME...]\<close>, one pair of brackets around both
  occurrences; for \<open>+\<close> they are \<^verbatim>\<open>NAME [NAME...]\<close>, the first occurrence outside the
  brackets.
\<close>

theorem toString_placeholders:
  "(nargs_u arg = fixed_nargs N \<longrightarrow>
      toString arg =
        (if optional arg then ''['' else []) @
        (if name arg \<noteq> [] then ''--'' @ name arg else ''-'' @ short_name arg) @
        concat (replicate (min N 3)
                  ('' '' @ upper (if name arg = [] then short_name arg else name arg))) @
        (if N > 3 then '' ...'' else []) @
        (if optional arg then '']'' else [])) \<and>
   (nargs_u arg = variable_nargs (CHR ''*'') \<longrightarrow>
      toString arg =
        (if optional arg then ''['' else []) @
        (if name arg \<noteq> [] then ''--'' @ name arg else ''-'' @ short_name arg) @
        '' ['' @ upper (if name arg = [] then short_name arg else name arg) @
        '' '' @ upper (if name arg = [] then short_name arg else name arg) @ ''...]'' @
        (if optional arg then '']'' else [])) \<and>
   (nargs_u arg = variable_nargs (CHR ''+'') \<longrightarrow>
      toString arg =
        (if optional arg then ''['' else []) @
        (if name arg \<noteq> [] then ''--'' @ name arg else ''-'' @ short_name arg) @
        '' '' @ upper (if name arg = [] then short_name arg else name arg) @
        '' ['' @ upper (if name arg = [] then short_name arg else name arg) @ ''...]'' @
        (if optional arg then '']'' else []))"
  by (auto simp add: toString_def Let_def min_def)

theorem toString_placeholders_witness:
  "toString \<lparr>short_name = ''i'', name = [], optional = False, nargs_u = fixed_nargs 5\<rparr>
     = ''-i I I I ...'' \<and>
   toString \<lparr>short_name = [], name = ''in'', optional = False,
             nargs_u = variable_nargs (CHR ''*'')\<rparr> = ''--in [IN IN...]'' \<and>
   toString \<lparr>short_name = [], name = ''in'', optional = True,
             nargs_u = variable_nargs (CHR ''+'')\<rparr> = ''[--in IN [IN...]]''"
  using
    toString_placeholders [of "\<lparr>short_name = ''i'', name = [], optional = False,
       nargs_u = fixed_nargs 5\<rparr>" 5]
    toString_placeholders [of "\<lparr>short_name = [], name = ''in'', optional = False,
       nargs_u = variable_nargs (CHR ''*'')\<rparr>"]
    toString_placeholders [of "\<lparr>short_name = [], name = ''in'', optional = True,
       nargs_u = variable_nargs (CHR ''+'')\<rparr>"]
  by (simp add: upper_def toupper_def numeral_3_eq_3)

text \<open>
  The claim as stated in C10 fails for \<open>*\<close>: the rendered form of \<^verbatim>\<open>--in\<close> with \<open>*\<close> is
  \<^verbatim>\<open>--in [IN IN...]\<close>, with no nested brackets.
\<close>

theorem star_brackets_not_nested:
  "toString \<lparr>short_name = [], name = ''in'', optional = False,
             nargs_u = variable_nargs (CHR ''*'')\<rparr> = ''--in [IN IN...]''"
  by (simp add: toString_def upper_def toupper_def)

subsection \<open>The values a parser holds\<close>

text \<open>
  Every declaration goes through \<^verbatim>\<open>insertArgument\<close>, which appends a slot built from a
  string or from a sequence; nothing else adds a slot. So on every reachable parser the
  descriptors and the slots are aligned, every slot holds a value, and every index entry
  points to a slot.
\<close>

lemma insertArgument_keeps_slots:
  assumes "length (variables p) = length (arguments p)"
    and "\<forall>a \<in> set (variables p). \<exists>h. a = Any_of h"
    and "\<forall>k N. index p k = Some N \<longrightarrow> N < length (arguments p)"
  shows "length (variables (insertArgument p arg)) = length (arguments (insertArgument p arg)) \<and>
         (\<forall>a \<in> set (variables (insertArgument p arg)). \<exists>h. a = Any_of h) \<and>
         (\<forall>k N. index (insertArgument p arg) k = Some N \<longrightarrow>
                N < length (arguments (insertArgument p arg)))"
proof (intro conjI)
  show "length (variables (insertArgument p arg)) = length (arguments (insertArgument p arg))"
    using assms(1) by (simp add: insertArgument_arguments insertArgument_variables)
  show "\<forall>a \<in> set (variables (insertArgument p arg)). \<exists>h. a = Any_of h"
    using assms(2) by (auto simp add: insertArgument_variables)
  show "\<forall>k N. index (insertArgument p arg) k = Some N \<longrightarrow>
                N < length (arguments (insertArgument p arg))"
    using assms(3)
    by (auto simp add: insertArgument_arguments insertArgument_index less_Suc_eq
        split: if_splits)
qed

lemma addArgument_inserts:
  "addArgument p nm nargs opt = Returns p' \<Longrightarrow> \<exists>arg. p' = insertArgument p arg"
  by (cases "sanitize nm") (auto simp add: addArgument_def split: if_splits)

lemma addArgument2_inserts:
  "addArgument2 p snm nm nargs opt = Returns p' \<Longrightarrow> \<exists>arg. p' = insertArgument p arg"
  by (cases "sanitize snm"; cases "sanitize nm") (auto simp add: addArgument2_def)

lemma addFinalArgument_inserts:
  "addFinalArgument p nm nargs opt = Returns p' \<Longrightarrow>
     \<exists>arg. p' = insertArgument (p\<lparr>final_name := nm\<rparr>) arg"
  by (auto simp add: addFinalArgument_def)

lemma usage_parser:
  assumes "usage p = Returns (s, c, p')"
  shows "arguments p' = arguments p \<and> variables p' = variables p \<and>
         (\<forall>k N. index p' k = Some N \<longrightarrow> index p k = Some N \<or> N < length (arguments p))"
proof (cases "final_name p = []")
  case True
  with assms have "p' = p" by (simp add: usage_def Let_def)
  then show ?thesis by simp
next
  case False
  show ?thesis
  proof (cases "index p (final_name p)")
    case None
    with False assms have "0 < length (arguments p) \<and>
        p' = p\<lparr>index := (index p)(final_name p \<mapsto> 0)\<rparr>"
      by (simp add: usage_def Let_def split: if_splits)
    then show ?thesis by auto
  next
    case (Some i)
    with False assms have "p' = p"
      by (simp add: usage_def Let_def split: if_splits)
    then show ?thesis by simp
  qed
qed

lemma reachable_slots:
  assumes "reachable p"
  shows "length (variables p) = length (arguments p) \<and>
         (\<forall>a \<in> set (variables p). \<exists>h. a = Any_of h) \<and>
         (\<forall>k N. index p k = Some N \<longrightarrow> N < length (arguments p))"
  using assms
proof (induction rule: reachable.induct)
  case (constructed ig)
  show ?case by (simp add: ArgumentParser_new_def)
next
  case (appName p nm)
  then show ?case by (simp add: appName_def)
next
  case (ignoreFirstArgument p ig)
  then show ?case by (simp add: ignoreFirstArgument_def)
next
  case (addArgument p nm nargs opt p')
  from addArgument_inserts [OF addArgument.hyps(2)]
  obtain arg where "p' = insertArgument p arg" by blast
  with addArgument.IH insertArgument_keeps_slots [of p arg] show ?case by blast
next
  case (addArgument2 p snm nm nargs opt p')
  from addArgument2_inserts [OF addArgument2.hyps(2)]
  obtain arg where "p' = insertArgument p arg" by blast
  with addArgument2.IH insertArgument_keeps_slots [of p arg] show ?case by blast
next
  case (addFinalArgument p nm nargs opt p')
  from addFinalArgument_inserts [OF addFinalArgument.hyps(2)]
  obtain arg where p': "p' = insertArgument (p\<lparr>final_name := nm\<rparr>) arg" by blast
  from addFinalArgument.IH insertArgument_keeps_slots [of "p\<lparr>final_name := nm\<rparr>" arg]
  show ?case unfolding p' by simp
next
  case (parse p argv)
  then show ?case by (simp add: parse_fields)
next
  case (usage p s c p')
  from usage_parser [OF usage.hyps(2)]
  have a: "arguments p' = arguments p" and v: "variables p' = variables p"
    and i: "\<forall>k N. index p' k = Some N \<longrightarrow> index p k = Some N \<or> N < length (arguments p)"
    by blast+
  from usage.IH i show ?case unfolding a v by blast
next
  case (clear p)
  show ?case by (simp add: clear_def)
qed

text \<open>
  C7, as amended. The code has no error for an empty value, and never extracts one.
  \<^verbatim>\<open>Any\<close> is private to the parser, and on every reachable parser each slot holds a
  value: none is a default-constructed \<^verbatim>\<open>Any\<close>. Extraction from a slot with any requested
  type, which is what \<^verbatim>\<open>retrieve\<close> and \<^verbatim>\<open>count\<close> do, returns the held value when the
  type is the held one and throws \<^verbatim>\<open>std::bad_cast\<close> otherwise; \<^verbatim>\<open>retrieve\<close> returns, or
  throws \<^verbatim>\<open>std::out_of_range\<close> or \<^verbatim>\<open>std::bad_cast\<close>, and never meets an empty value.
\<close>

theorem slots_hold_values:
  assumes "reachable p"
  shows "(\<forall>a \<in> set (variables p).
            \<exists>h. a = Any_of h \<and> a \<noteq> Any_default \<and>
                castTo T a = (if type_info h = T then Returns h else Throws bad_cast)) \<and>
         (retrieve T p nm = Throws out_of_range \<or> retrieve T p nm = Throws bad_cast \<or>
          (\<exists>h. retrieve T p nm = Returns h))"
proof -
  note inv = reachable_slots [OF assms]
  have slots: "\<forall>a \<in> set (variables p).
            \<exists>h. a = Any_of h \<and> a \<noteq> Any_default \<and>
                castTo T a = (if type_info h = T then Returns h else Throws bad_cast)"
  proof
    fix a
    assume "a \<in> set (variables p)"
    with inv obtain h where "a = Any_of h" by blast
    then show "\<exists>h. a = Any_of h \<and> a \<noteq> Any_default \<and>
                castTo T a = (if type_info h = T then Returns h else Throws bad_cast)"
      by (intro exI [of _ h]) (simp add: castTo_def toPtr_def Any_of_def Any_default_def)
  qed
  have "retrieve T p nm = Throws out_of_range \<or> retrieve T p nm = Throws bad_cast \<or>
          (\<exists>h. retrieve T p nm = Returns h)"
  proof (cases "index p nm")
    case None
    then show ?thesis by (simp add: retrieve_def)
  next
    case (Some N)
    with inv have N: "N < length (variables p)" by simp
    then have "variables p ! N \<in> set (variables p)" by simp
    with slots obtain h where
      "castTo T (variables p ! N) = (if type_info h = T then Returns h else Throws bad_cast)"
      by blast
    with Some N show ?thesis by (simp add: retrieve_def)
  qed
  with slots show ?thesis by (rule conjI)
qed

theorem slots_hold_values_witness:
  "reachable \<lparr>index = [''x'' \<mapsto> 0], ignore_first = False, app_name = [], final_name = [],
          arguments = [Argument_ctor ''x'' [] True (CHR 0x01)],
          variables = [Any_of (Holder_string [])]\<rparr> \<and>
   castTo typeid_vector_string (Any_of (Holder_string [])) = Throws bad_cast \<and>
   retrieve typeid_string
     \<lparr>index = [''x'' \<mapsto> 0], ignore_first = False, app_name = [], final_name = [],
      arguments = [Argument_ctor ''x'' [] True (CHR 0x01)],
      variables = [Any_of (Holder_string [])]\<rparr> ''x'' \<noteq> Undefined_behaviour"
proof -
  let ?P = "\<lparr>index = [''x'' \<mapsto> 0], ignore_first = False, app_name = [], final_name = [],
          arguments = [Argument_ctor ''x'' [] True (CHR 0x01)],
          variables = [Any_of (Holder_string [])]\<rparr>"
  have r: "reachable ?P"
    using reachable.addArgument [OF reachable.constructed short_only_declared] .
  note t = slots_hold_values [OF r]
  have a: "castTo typeid_vector_string (Any_of (Holder_string [])) = Throws bad_cast"
    using t [of typeid_vector_string, THEN conjunct1] by (simp add: Any_of_def)
  have b: "retrieve typeid_string ?P ''x'' \<noteq> Undefined_behaviour"
    using t [of typeid_string "''x''", THEN conjunct2] by auto
  show ?thesis by (rule conjI [OF r conjI [OF a b]])
qed

text \<open>
  The claim as stated in C7 fails: extraction from a default-constructed \<^verbatim>\<open>Any\<close>, which
  only code inside the class could attempt, does not fail with an error. \<^verbatim>\<open>toPtr\<close>
  dereferences the null \<^verbatim>\<open>content\<close>, whichever type is requested.
\<close>

theorem empty_value_not_an_error:
  "castTo typeid_string Any_default = Undefined_behaviour \<and>
   castTo typeid_vector_string Any_default = Undefined_behaviour"
  by (simp add: castTo_def toPtr_def Any_default_def)

end
